theory Spec2Isabelle
  imports Complex_Main "HOL-Library.Sublist" "HOL-Library.Word"
begin

section \<open>Strings of the fulfillment code\<close>

text \<open>
  The webhook (\<^verbatim>\<open>functions/src/index.ts\<close> and its session-entities twin) works on
  JavaScript strings: sequences of 16-bit code units. A string literal of the source is
  written \<open>js ''...''\<close>, the code units of its characters.
\<close>

type_synonym code_unit = "16 word"

type_synonym jsstring = "code_unit list"

definition js :: "string \<Rightarrow> jsstring" where
  "js s = map of_char s"

definition colon :: code_unit where
  "colon = 58"

definition space :: code_unit where
  "space = 32"

text \<open>
  \<^verbatim>\<open>String.prototype.toLowerCase\<close> is the language's, not the repository's: it folds
  every cased character of Unicode and is not a map on single code units. It is a
  parameter of the model, \<open>lower\<close>, of which nothing is assumed; whatever a property
  needs of it is a hypothesis of that property.
\<close>

type_synonym lowercase = "jsstring \<Rightarrow> jsstring"

text \<open>
  The regular-expression class \<^verbatim>\<open>\w\<close> (no \<^verbatim>\<open>u\<close> or \<^verbatim>\<open>i\<close> flag) is
  \<^verbatim>\<open>[A-Za-z0-9_]\<close>.
\<close>

definition is_word :: "code_unit \<Rightarrow> bool" where
  "is_word c =
     ((48 \<le> c \<and> c \<le> 57) \<or> (65 \<le> c \<and> c \<le> 90) \<or> c = 95 \<or> (97 \<le> c \<and> c \<le> 122))"

text \<open>
  \<^verbatim>\<open>.replace(/(\w):(\w)/g, '$1 $2')\<close>: the global replace scans from left to right; a
  match consumes its three code units and the scan resumes behind them, otherwise one
  code unit is copied and the scan moves on by one.
\<close>

fun replace_word_colon_word :: "jsstring \<Rightarrow> jsstring" where
  "replace_word_colon_word (a # b # c # rest) =
     (if is_word a \<and> b = colon \<and> is_word c
      then a # space # c # replace_word_colon_word rest
      else a # replace_word_colon_word (b # c # rest))"
| "replace_word_colon_word s = s"

text \<open>\<^verbatim>\<open>.replace(/:/g, '')\<close>\<close>

definition replace_colon :: "jsstring \<Rightarrow> jsstring" where
  "replace_colon s = filter (\<lambda>c. c \<noteq> colon) s"

text \<open>
  \<^verbatim>\<open>
  function sanitizeTitle(title: string) {
    return title
      .toLowerCase()
      .replace(/(\w):(\w)/g, '$1 $2')
      .replace(/:/g, '')
  }
  \<close>
\<close>

definition sanitizeTitle :: "lowercase \<Rightarrow> jsstring \<Rightarrow> jsstring" where
  "sanitizeTitle lower title = replace_colon (replace_word_colon_word (lower title))"

text \<open>
  \<^verbatim>\<open>title.indexOf(search)\<close>: the first position at which \<open>search\<close> starts, or \<open>-1\<close>.
\<close>

fun indexOf_from :: "jsstring \<Rightarrow> jsstring \<Rightarrow> int \<Rightarrow> int" where
  "indexOf_from [] search i = (if search = [] then i else - 1)"
| "indexOf_from (c # cs) search i =
     (if prefix search (c # cs) then i else indexOf_from cs search (i + 1))"

definition indexOf :: "jsstring \<Rightarrow> jsstring \<Rightarrow> int" where
  "indexOf s search = indexOf_from s search 0"

text \<open>\<^verbatim>\<open>genres.includes(search)\<close>\<close>

definition array_includes :: "'a list \<Rightarrow> 'a \<Rightarrow> bool" where
  "array_includes xs x = (x \<in> set xs)"

text \<open>
  \<^verbatim>\<open>xs[i]\<close>: reading an array outside its bounds gives \<^verbatim>\<open>undefined\<close>, here \<open>None\<close>.
\<close>

definition elem :: "'a list \<Rightarrow> int \<Rightarrow> 'a option" where
  "elem xs i = (if 0 \<le> i \<and> i < int (length xs) then Some (xs ! nat i) else None)"

text \<open>\<^verbatim>\<open>xs.join(sep)\<close>, also what an array becomes inside a template string (\<open>sep\<close> a comma).\<close>

fun join :: "jsstring \<Rightarrow> jsstring list \<Rightarrow> jsstring" where
  "join sep [] = []"
| "join sep [x] = x"
| "join sep (x # y # ys) = x @ sep @ join sep (y # ys)"

text \<open>A number inside a template string: its decimal digits.\<close>

fun show_nat :: "nat \<Rightarrow> jsstring" where
  "show_nat n =
     (if n < 10 then [48 + of_nat n] else show_nat (n div 10) @ [48 + of_nat (n mod 10)])"

declare show_nat.simps [simp del]

text \<open>A possibly undefined string inside a template string.\<close>

definition show_title :: "jsstring option \<Rightarrow> jsstring" where
  "show_title t = (case t of None \<Rightarrow> js ''undefined'' | Some s \<Rightarrow> s)"

section \<open>Catalog, session and conversation\<close>

text \<open>
  The track type is imported from \<^verbatim>\<open>./tabletopAudio\<close>; its fields are the ones the code
  reads: \<^verbatim>\<open>track_title\<close>, \<^verbatim>\<open>track_genre\<close>, \<^verbatim>\<open>tags\<close>, \<^verbatim>\<open>link\<close>, \<^verbatim>\<open>large_image\<close> and
  \<^verbatim>\<open>flavor_text\<close>.
\<close>

record TabletopAudioTrack =
  track_title :: jsstring
  track_genre :: "jsstring list"
  tags :: "jsstring list"
  link :: jsstring
  large_image :: jsstring
  flavor_text :: jsstring

record TabletopAudioResponse =
  tracks :: "TabletopAudioTrack list"

text \<open>
  \<^verbatim>\<open>
  interface TabletopAudioSession {
    json: TabletopAudioResponse,
    currentTrack: TabletopAudioTrack
  }
  \<close>
  Both fields are \<^verbatim>\<open>undefined\<close> (\<open>None\<close>) until they are first written.
\<close>

record TabletopAudioSession =
  json :: "TabletopAudioResponse option"
  currentTrack :: "TabletopAudioTrack option"

text \<open>
  What \<^verbatim>\<open>conv.ask\<close> is given: a plain string, a \<^verbatim>\<open>SimpleResponse\<close> (text, speech), a
  \<^verbatim>\<open>MediaObject\<close> (name, url, description, image url, image alt), \<^verbatim>\<open>Suggestions\<close>
  (the chip titles, \<open>None\<close> for an \<^verbatim>\<open>undefined\<close> title) or a \<^verbatim>\<open>BasicCard\<close> (title, image
  url, image alt, button title, button url).
\<close>

datatype fragment =
    Text jsstring
  | SimpleResponse jsstring jsstring
  | MediaObject jsstring jsstring jsstring jsstring jsstring
  | Suggestions "jsstring option list"
  | BasicCard jsstring jsstring jsstring jsstring jsstring

record Conv =
  data :: TabletopAudioSession
  responses :: "fragment list"

definition ask :: "Conv \<Rightarrow> fragment \<Rightarrow> Conv" where
  "ask conv f = conv\<lparr>responses := responses conv @ [f]\<rparr>"

datatype error = TypeError | FetchError

text \<open>
  A handler leaves the conversation as it is when it returns or throws, together with
  the exception if one was thrown.
\<close>

type_synonym outcome = "error option \<times> Conv"

section \<open>Random numbers\<close>

text \<open>
  \<^verbatim>\<open>Math.random()\<close> is an input: \<open>rnd k\<close> is the value of the \<open>k\<close>-th call from now on.
  It is a double at least \<open>0\<close> and below \<open>1\<close>, and so at most \<open>1 - 2\<^sup>-\<^sup>5\<^sup>3\<close>.
\<close>

type_synonym random = "nat \<Rightarrow> real"

definition unit_double :: "real \<Rightarrow> bool" where
  "unit_double r = (0 \<le> r \<and> r \<le> 1 - 1 / 2 ^ 53)"

text \<open>
  The product \<^verbatim>\<open>Math.random() * n\<close> is a product of doubles: the exact product, rounded
  to the nearest double, a tie going to the even significand. \<open>binade k x\<close> looks for
  the power of two at or below a positive \<open>x\<close> in at most \<open>k\<close> steps; a double has a
  significand of 53 bits, and below \<open>2\<^sup>-\<^sup>1\<^sup>0\<^sup>2\<^sup>2\<close> the spacing of the doubles stays that
  of this binade. (The products here are not negative and far from overflow.)
\<close>

primrec binade :: "nat \<Rightarrow> real \<Rightarrow> int" where
  "binade 0 x = 0"
| "binade (Suc k) x =
     (if 2 \<le> x then binade k (x / 2) + 1 else if x < 1 then binade k (x * 2) - 1 else 0)"

definition round_half_even :: "real \<Rightarrow> int" where
  "round_half_even y =
     (let f = \<lfloor>y\<rfloor>
      in if y - of_int f < 1 / 2 then f
         else if 1 / 2 < y - of_int f then f + 1
         else if even f then f else f + 1)"

definition double_round :: "real \<Rightarrow> real" where
  "double_round x =
     (if x \<le> 0 then 0
      else let e = max (binade 1100 x) (- 1022); ulp = 2 powi (e - 52)
           in ulp * of_int (round_half_even (x / ulp)))"

text \<open>
  \<^verbatim>\<open>Math.floor(Math.random() * n)\<close>, for \<open>n\<close> the length of an array (a whole number
  below \<open>2\<^sup>3\<^sup>2\<close>, which is a double).
\<close>

definition random_index :: "real \<Rightarrow> nat \<Rightarrow> int" where
  "random_index r n = \<lfloor>double_round (r * real n)\<rfloor>"

section \<open>Suggestions\<close>

definition generateMediaResponse :: "TabletopAudioTrack \<Rightarrow> fragment" where
  "generateMediaResponse track =
     MediaObject (track_title track) (link track) (flavor_text track) (large_image track)
       (js ''Track art for '' @ track_title track)"

definition getSuggestionTrackTitle :: "TabletopAudioTrack \<Rightarrow> jsstring option" where
  "getSuggestionTrackTitle track = Some (track_title track)"

definition getSuggestionTrackGenre :: "TabletopAudioTrack \<Rightarrow> jsstring option" where
  "getSuggestionTrackGenre track = elem (track_genre track) 0"

definition getSuggestionTag :: "TabletopAudioTrack \<Rightarrow> jsstring option" where
  "getSuggestionTag track = elem (tags track) 0"

definition suggestionGenerators :: "(TabletopAudioTrack \<Rightarrow> jsstring option) list" where
  "suggestionGenerators = [getSuggestionTrackTitle, getSuggestionTrackGenre, getSuggestionTag]"

text \<open>
  \<^verbatim>\<open>
  for (let i = 0; i < 6; i++) {
    const randomTrack = tracks[Math.floor(Math.random() * tracks.length)]
    const mod = i % 3
    suggestions.push(suggestionGenerators[mod](randomTrack))
  }
  return new Suggestions(suggestions)
  \<close>
  A generator applied to \<^verbatim>\<open>undefined\<close> throws a \<^verbatim>\<open>TypeError\<close>.
\<close>

function getSuggestions_loop ::
  "random \<Rightarrow> TabletopAudioTrack list \<Rightarrow> nat \<Rightarrow> jsstring option list
     \<Rightarrow> error + jsstring option list"
where
  "getSuggestions_loop rnd trks i suggestions =
     (if i < 6 then
        (case elem trks (random_index (rnd i) (length trks)) of
           None \<Rightarrow> Inl TypeError
         | Some randomTrack \<Rightarrow>
             getSuggestions_loop rnd trks (i + 1)
               (suggestions @ [(suggestionGenerators ! (i mod 3)) randomTrack]))
      else Inr suggestions)"
  by pat_completeness auto
termination
  by (relation "measure (\<lambda>(rnd, trks, i, suggestions). 6 - i)") auto

declare getSuggestions_loop.simps [simp del]

definition getSuggestions ::
  "random \<Rightarrow> TabletopAudioTrack list \<Rightarrow> error + jsstring option list"
where
  "getSuggestions rnd trks = getSuggestions_loop rnd trks 0 []"

section \<open>Play: the track matcher\<close>

text \<open>
  The loop of \<^verbatim>\<open>searchAndPlay\<close> (in \<^verbatim>\<open>index.ts\<close> the same body stands in the \<^verbatim>\<open>Play\<close>
  handler itself). \<open>Inl track\<close> is the early \<^verbatim>\<open>return\<close> from inside the loop,
  \<open>Inr searchResults\<close> the array once the loop has run to its end.
  \<^verbatim>\<open>
  for (const track of conv.data.json.tracks) {
    const title = sanitizeTitle(track.track_title)
    const genres = track.track_genre.map((g: string) => g.toLowerCase())
    const tags = track.tags.map((t: string) => t.toLowerCase())
    if (title.indexOf(search) > -1) { ...; return }
    if (genres.includes(search) || tags.includes(search)) {
      searchResults.push(track)
    }
  }
  \<close>
\<close>

fun searchAndPlay_loop ::
  "lowercase \<Rightarrow> jsstring \<Rightarrow> TabletopAudioTrack list \<Rightarrow> TabletopAudioTrack list
     \<Rightarrow> TabletopAudioTrack + TabletopAudioTrack list"
where
  "searchAndPlay_loop lower search [] searchResults = Inr searchResults"
| "searchAndPlay_loop lower search (track # rest) searchResults =
     (let title = sanitizeTitle lower (track_title track);
          genres = map lower (track_genre track);
          tgs = map lower (tags track)
      in if indexOf title search > - 1 then Inl track
         else if array_includes genres search \<or> array_includes tgs search
           then searchAndPlay_loop lower search rest (searchResults @ [track])
           else searchAndPlay_loop lower search rest searchResults)"

text \<open>
  The three ways out of the matching code, in the vocabulary of the specification: the
  early return, a non-empty \<^verbatim>\<open>searchResults\<close>, and the fall-through.
\<close>

datatype MatchResult =
    ExactTitle TabletopAudioTrack
  | CategorySet "TabletopAudioTrack list"
  | NoMatch

definition matchTracks ::
  "lowercase \<Rightarrow> TabletopAudioTrack list \<Rightarrow> jsstring \<Rightarrow> MatchResult"
where
  "matchTracks lower catalog searchString =
     (case searchAndPlay_loop lower (sanitizeTitle lower searchString) catalog [] of
        Inl track \<Rightarrow> ExactTitle track
      | Inr searchResults \<Rightarrow>
          if length searchResults \<noteq> 0 then CategorySet searchResults else NoMatch)"

definition searchAndPlay :: "lowercase \<Rightarrow> random \<Rightarrow> Conv \<Rightarrow> jsstring \<Rightarrow> outcome" where
  "searchAndPlay lower rnd conv searchString =
     (let search = sanitizeTitle lower searchString in
      case json (data conv) of
        None \<Rightarrow> (Some TypeError, conv)
      | Some j \<Rightarrow>
          (case searchAndPlay_loop lower search (tracks j) [] of
             Inl track \<Rightarrow>
               (let conv1 = ask conv (Text (js ''Here is '' @ track_title track @ js ''.''));
                    conv2 = ask conv1 (generateMediaResponse track)
                in case getSuggestions rnd (tracks j) of
                     Inl e \<Rightarrow> (Some e, conv2)
                   | Inr suggestions \<Rightarrow>
                       (let conv3 = ask conv2 (Suggestions suggestions)
                        in (None, conv3\<lparr>data := (data conv3)\<lparr>currentTrack := Some track\<rparr>\<rparr>)))
           | Inr searchResults \<Rightarrow>
               if length searchResults \<noteq> 0 then
                 (case elem searchResults (random_index (rnd 0) (length searchResults)) of
                    None \<Rightarrow> (Some TypeError, conv)
                  | Some track \<Rightarrow>
                      (let conv1 = ask conv (Text
                             (js ''I found several tracks for the category '' @ search @
                              js ''. Here is one at random: '' @ track_title track @ js ''.''));
                           conv2 = ask conv1 (generateMediaResponse track)
                       in case getSuggestions (\<lambda>k. rnd (Suc k)) (tracks j) of
                            Inl e \<Rightarrow> (Some e, conv2)
                          | Inr suggestions \<Rightarrow>
                              (let conv3 = ask conv2 (Suggestions suggestions)
                               in (None,
                                   conv3\<lparr>data := (data conv3)\<lparr>currentTrack := Some track\<rparr>\<rparr>))))
               else
                 (case getSuggestions rnd (tracks j) of
                    Inl e \<Rightarrow> (Some e, conv)
                  | Inr suggestions \<Rightarrow>
                      (case elem suggestions 0 of
                         None \<Rightarrow> (Some TypeError, conv)
                       | Some title0 \<Rightarrow>
                           (let conv1 = ask conv (SimpleResponse
                                  (js ''I can't find a track with that description. '' @
                                   js ''What else do you want to listen to?'')
                                  (js ''I can't find a track with that description, but I found others like '' @
                                   show_title title0 @ js ''. '' @
                                   js ''You can also ask \"What are the latest tracks?\". '' @
                                   js ''What would you like to listen to?''))
                            in (None, ask conv1 (Suggestions suggestions)))))))"

definition Play :: "lowercase \<Rightarrow> random \<Rightarrow> Conv \<Rightarrow> jsstring \<Rightarrow> outcome" where
  "Play lower rnd conv search = searchAndPlay lower rnd conv search"

text \<open>
  \<^verbatim>\<open>params.title || params.genre || params.tag\<close>: an absent parameter and the empty string
  are both falsy.
\<close>

definition truthy :: "jsstring option \<Rightarrow> bool" where
  "truthy p = (case p of None \<Rightarrow> False | Some s \<Rightarrow> s \<noteq> [])"

definition js_or :: "jsstring option \<Rightarrow> jsstring option \<Rightarrow> jsstring option" where
  "js_or p q = (if truthy p then p else q)"

definition PlayEntity ::
  "lowercase \<Rightarrow> random \<Rightarrow> Conv \<Rightarrow> jsstring option \<Rightarrow> jsstring option \<Rightarrow> jsstring option
     \<Rightarrow> outcome"
where
  "PlayEntity lower rnd conv title genre tag =
     (let searchString = js_or (js_or title genre) tag in
      case searchString of
        Some s \<Rightarrow>
          if s \<noteq> [] then searchAndPlay lower rnd conv s
          else (None, ask conv (Text
                  (js ''I apologize, I do not know what you are looking for. '' @
                   js ''What do you want to play?'')))
      | None \<Rightarrow>
          (None, ask conv (Text
             (js ''I apologize, I do not know what you are looking for. '' @
              js ''What do you want to play?''))))"

section \<open>Repeat, Current, New, Help, Search, media status, welcome\<close>

text \<open>
  \<^verbatim>\<open>conv.ask(getSuggestions(conv.data.json.tracks))\<close>: reading \<^verbatim>\<open>.tracks\<close> of an undefined
  catalog throws, and so may \<^verbatim>\<open>getSuggestions\<close>; nothing is enqueued then.
\<close>

definition ask_suggestions :: "random \<Rightarrow> Conv \<Rightarrow> outcome" where
  "ask_suggestions rnd conv =
     (case json (data conv) of
        None \<Rightarrow> (Some TypeError, conv)
      | Some j \<Rightarrow>
          (case getSuggestions rnd (tracks j) of
             Inl e \<Rightarrow> (Some e, conv)
           | Inr suggestions \<Rightarrow> (None, ask conv (Suggestions suggestions))))"

definition Repeat :: "random \<Rightarrow> Conv \<Rightarrow> outcome" where
  "Repeat rnd conv =
     (case currentTrack (data conv) of
        None \<Rightarrow>
          ask_suggestions rnd (ask conv (Text
            (js ''Sorry, I do not know what track you want to play. '' @
             js ''What else do you want to listen to?'')))
      | Some track \<Rightarrow>
          (let conv1 = ask conv (Text (js ''Once again, here's '' @ track_title track));
               conv2 = ask conv1 (generateMediaResponse track)
           in ask_suggestions rnd conv2))"

definition Current :: "random \<Rightarrow> Conv \<Rightarrow> outcome" where
  "Current rnd conv =
     (case currentTrack (data conv) of
        None \<Rightarrow>
          ask_suggestions rnd (ask conv (Text
            (js ''Sorry, I don't think anything is playing. What do you want to listen to?'')))
      | Some track \<Rightarrow>
          ask_suggestions rnd (ask conv (Text
            (js ''This is '' @ track_title track @ js '' from Tabletop Audio. '' @ flavor_text track))))"

definition New :: "Conv \<Rightarrow> outcome" where
  "New conv =
     (case json (data conv) of
        None \<Rightarrow> (Some TypeError, conv)
      | Some j \<Rightarrow>
          (let newestTracks = take 3 (tracks j);
               conv1 = ask conv (Text
                 (js ''The last three tracks added to Tabletop Audio are: '' @
                  join (js '','') (map track_title newestTracks) @
                  js ''. What do you want to listen to?''))
           in (None, ask conv1 (Suggestions (map (\<lambda>track. Some (track_title track)) newestTracks)))))"

definition Help :: "Conv \<Rightarrow> outcome" where
  "Help conv =
     (case json (data conv) of
        None \<Rightarrow> (Some TypeError, conv)
      | Some j \<Rightarrow>
          (case elem (tracks j) 0 of
             None \<Rightarrow> (Some TypeError, conv)
           | Some track0 \<Rightarrow>
               (let conv1 = ask conv (Text
                      (js ''Tabletop Audio is the premier advertising-free, free-to-use, and user-supported '' @
                       js ''ambient game audio site on the Internet. Visit the website to view a complete list of '' @
                       js ''tracks. You can also ask me \"What are the latest tracks\", ask for a specific song like '' @
                       track_title track0 @ js '', or ask to play music from a genre like '' @
                       join (js '','') (track_genre track0) @ js ''. What do you want to do?''))
                in (None, ask conv1 (BasicCard (js ''Tabletop Audio'')
                      (js ''https://firebasestorage.googleapis.com/v0/b/tabletopaudio.appspot.com/o/Screenshot%20from%202019-05-20%2011-48-52.png?alt=media'')
                      (js ''Tabletop Audio banner image'') (js ''View website'') (js ''https://tabletopaudio.com''))))))"

text \<open>
  \<^verbatim>\<open>
  for (const track of conv.data.json.tracks) {
    const title = track.track_title.toLowerCase()
    const genres = track.track_genre.map((g: string) => g.toLowerCase())
    const tags = track.tags.map((t: string) => t.toLowerCase())
    if (title.indexOf(search) > -1 || genres.includes(search) || tags.includes(search)) {
      trackOut.push(track.track_title)
    }
  }
  \<close>
\<close>

fun Search_loop ::
  "lowercase \<Rightarrow> jsstring \<Rightarrow> TabletopAudioTrack list \<Rightarrow> jsstring list \<Rightarrow> jsstring list"
where
  "Search_loop lower search [] trackOut = trackOut"
| "Search_loop lower search (track # rest) trackOut =
     (let title = lower (track_title track);
          genres = map lower (track_genre track);
          tgs = map lower (tags track)
      in if indexOf title search > - 1 \<or> array_includes genres search \<or> array_includes tgs search
         then Search_loop lower search rest (trackOut @ [track_title track])
         else Search_loop lower search rest trackOut)"

definition Search :: "lowercase \<Rightarrow> random \<Rightarrow> Conv \<Rightarrow> jsstring \<Rightarrow> outcome" where
  "Search lower rnd conv search_param =
     (let search = lower search_param in
      case json (data conv) of
        None \<Rightarrow> (Some TypeError, conv)
      | Some j \<Rightarrow>
          (let trackOut = Search_loop lower search (tracks j) [] in
           if length trackOut = 1 then
             (None, ask conv (Text
                (js ''There is 1 track. It is called '' @ show_title (elem trackOut 0) @
                 js ''. What should I play?'')))
           else if length trackOut > 1 then
             (let conv1 = ask conv (Text
                    (js ''There are '' @ show_nat (length trackOut) @ js '' tracks that I found.''));
                  conv2 = ask conv1 (Text
                    (js ''The first three are called '' @ join (js '', '') (take 3 trackOut) @
                     js ''. What should I play?''))
              in (None, ask conv2 (Suggestions (map Some (take 8 trackOut)))))
           else
             (case getSuggestions rnd (tracks j) of
                Inl e \<Rightarrow> (Some e, conv)
              | Inr suggestions \<Rightarrow>
                  (case elem suggestions 0 of
                     None \<Rightarrow> (Some TypeError, conv)
                   | Some title0 \<Rightarrow>
                       (let conv1 = ask conv (SimpleResponse
                              (js ''I am unable to find that audio for you. What else do you want to listen to?'')
                              (js ''I am unable to find that audio, but I found others like '' @
                               show_title title0 @ js ''. What would you like to listen to?''))
                        in (None, ask conv1 (Suggestions suggestions)))))))"

text \<open>
  \<^verbatim>\<open>conv.arguments.get('MEDIA_STATUS')\<close> is an input: the status of the argument, when the
  request carries one.
\<close>

definition MediaStatus :: "random \<Rightarrow> Conv \<Rightarrow> jsstring option \<Rightarrow> outcome" where
  "MediaStatus rnd conv mediaStatus =
     (let response =
            (if mediaStatus = Some (js ''FINISHED'')
             then js ''Hope you enjoyed that song. What else do you want to listen to?''
             else js ''Unknown media status received.'');
          conv1 = ask conv (Text response);
          conv2 = ask conv1 (Suggestions [Some (js ''Repeat'')])
      in ask_suggestions rnd conv2)"

text \<open>The welcome handler of \<^verbatim>\<open>index.ts\<close>.\<close>

definition Welcome :: "random \<Rightarrow> Conv \<Rightarrow> outcome" where
  "Welcome rnd conv =
     (case json (data conv) of
        None \<Rightarrow> (Some TypeError, conv)
      | Some j \<Rightarrow>
          (case elem (tracks j) 0 of
             None \<Rightarrow> (Some TypeError, conv)
           | Some track0 \<Rightarrow>
               ask_suggestions rnd (ask conv (SimpleResponse
                 (js ''Welcome to Tabletop Audio! I can play a specific track, '' @
                  js ''or start playing based on a genre. What do you want to listen to?'')
                 (js ''Welcome to Tabletop Audio! I can play a specific track '' @
                  js ''like '' @ track_title track0 @ js '', or start playing based on a genre like '' @
                  join (js '','') (track_genre track0) @ js ''. What do you want to listen to?'')))))"

text \<open>
  The welcome handler of the session-entities variant; \<open>seen\<close> is
  \<^verbatim>\<open>conv.user.last.seen\<close>. The entity registrations of that variant live in the plugin
  object, outside \<^verbatim>\<open>conv.data\<close>, and are not part of the model.
\<close>

definition WelcomeEntities :: "random \<Rightarrow> Conv \<Rightarrow> bool \<Rightarrow> outcome" where
  "WelcomeEntities rnd conv seen =
     (case json (data conv) of
        None \<Rightarrow> (Some TypeError, conv)
      | Some j \<Rightarrow>
          (case elem (tracks j) 0 of
             None \<Rightarrow> (Some TypeError, conv)
           | Some track0 \<Rightarrow>
               if seen then
                 (let conv1 = ask conv (SimpleResponse
                        (js ''Welcome back! What do you want to listen to?'')
                        (js ''Welcome back! By the way, the track '' @
                         track_title track0 @ js '' was recently added. '' @
                         js ''What do you want to listen to?''));
                      conv2 = ask conv1 (Suggestions [Some (track_title track0)]);
                      conv3 = ask conv2 (Suggestions [Some (js ''What's new?'')])
                  in ask_suggestions rnd conv3)
               else
                 (let conv1 = ask conv (SimpleResponse
                        (js ''Welcome to Tabletop Audio! I can play a specific track, '' @
                         js ''or start playing based on a genre. What do you want to listen to?'')
                        (js ''Welcome to Tabletop Audio! I can play a specific track '' @
                         js ''like '' @ track_title track0 @
                         js '', or start playing based on a genre like '' @
                         join (js '','') (track_genre track0) @ js ''. What do you want to listen to?''));
                      conv2 = ask conv1 (Suggestions [Some (js ''Help'')]);
                      conv3 = ask conv2 (Suggestions [Some (js ''What's new?'')])
                  in ask_suggestions rnd conv3)))"

section \<open>The catalog cache and the turns of a session\<close>

text \<open>
  \<^verbatim>\<open>
  async function cacheResults(conv: Conv) {
    if (!conv.data.json) {
      const response = await fetch(tabletopAudioUrl)
      const json: TabletopAudioResponse = await response.json()
      conv.data.json = json
    }
  }
  \<close>
  The remote site is an input: \<open>remote\<close> is what a fetch made in this turn ends in, a
  rejection or the parsed catalog. The result logs every fetch that was made.
\<close>

datatype fetch_event = Fetched | FetchFailed

definition cacheResults ::
  "error + TabletopAudioResponse \<Rightarrow> Conv \<Rightarrow> fetch_event list \<times> outcome"
where
  "cacheResults remote conv =
     (case json (data conv) of
        None \<Rightarrow>
          (case remote of
             Inl e \<Rightarrow> ([FetchFailed], Some e, conv)
           | Inr j \<Rightarrow> ([Fetched], None, conv\<lparr>data := (data conv)\<lparr>json := Some j\<rparr>\<rparr>))
      | Some j \<Rightarrow> ([], None, conv))"

datatype intent =
    DefaultWelcomeIntent
  | DefaultWelcomeIntentEntities bool
  | PlayIntent jsstring
  | PlayEntityIntent "jsstring option" "jsstring option" "jsstring option"
  | RepeatIntent
  | CurrentIntent
  | NewIntent
  | HelpIntent
  | SearchIntent jsstring
  | MediaStatusIntent "jsstring option"

fun handle :: "lowercase \<Rightarrow> random \<Rightarrow> intent \<Rightarrow> Conv \<Rightarrow> outcome" where
  "handle lower rnd DefaultWelcomeIntent conv = Welcome rnd conv"
| "handle lower rnd (DefaultWelcomeIntentEntities seen) conv = WelcomeEntities rnd conv seen"
| "handle lower rnd (PlayIntent search) conv = Play lower rnd conv search"
| "handle lower rnd (PlayEntityIntent title genre tag) conv =
     PlayEntity lower rnd conv title genre tag"
| "handle lower rnd RepeatIntent conv = Repeat rnd conv"
| "handle lower rnd CurrentIntent conv = Current rnd conv"
| "handle lower rnd NewIntent conv = New conv"
| "handle lower rnd HelpIntent conv = Help conv"
| "handle lower rnd (SearchIntent search) conv = Search lower rnd conv search"
| "handle lower rnd (MediaStatusIntent mediaStatus) conv = MediaStatus rnd conv mediaStatus"

text \<open>
  One turn: the middleware (\<^verbatim>\<open>await cacheResults(conv)\<close>) and then the handler of the
  recognised intent, on a conversation that starts from the session data with nothing
  enqueued. A turn whose middleware throws does not reach its handler.
\<close>

record turn_input =
  turn_remote :: "error + TabletopAudioResponse"
  turn_random :: random
  turn_intent :: intent

definition turn ::
  "lowercase \<Rightarrow> turn_input \<Rightarrow> TabletopAudioSession \<Rightarrow> fetch_event list \<times> outcome"
where
  "turn lower inp session =
     (case cacheResults (turn_remote inp) \<lparr>data = session, responses = []\<rparr> of
        (evs, Some e, conv) \<Rightarrow> (evs, Some e, conv)
      | (evs, None, conv) \<Rightarrow> (evs, handle lower (turn_random inp) (turn_intent inp) conv))"

text \<open>
  A session is a sequence of turns; each starts from the data the turn before it left in
  \<^verbatim>\<open>conv.data\<close>. The result is the log of all fetches and the session data at the end.
\<close>

fun run ::
  "lowercase \<Rightarrow> turn_input list \<Rightarrow> TabletopAudioSession
     \<Rightarrow> fetch_event list \<times> TabletopAudioSession"
where
  "run lower [] session = ([], session)"
| "run lower (inp # inps) session =
     (case turn lower inp session of
        (evs, err, conv) \<Rightarrow>
          (case run lower inps (data conv) of (evs', session') \<Rightarrow> (evs @ evs', session')))"

section \<open>Vocabulary of the stated properties\<close>

text \<open>
  The colon at position \<open>i\<close> of \<open>l\<close> stands between two word characters.
\<close>

definition flanked :: "jsstring \<Rightarrow> nat \<Rightarrow> bool" where
  "flanked l i =
     (0 < i \<and> i + 1 < length l \<and> l ! i = colon \<and>
      is_word (l ! (i - 1)) \<and> is_word (l ! (i + 1)))"

text \<open>
  The normalizer in the words of the specification: lower-case; every
  word-character/colon/word-character pattern keeps its two word characters with a single
  space between them; every other colon is deleted.
\<close>

definition normalize_spec :: "lowercase \<Rightarrow> jsstring \<Rightarrow> jsstring" where
  "normalize_spec lower s =
     (let l = lower s
      in concat (map (\<lambda>i. if l ! i = colon
                          then (if flanked l i then [space] else [])
                          else [l ! i])
                  [0..<length l]))"

text \<open>
  What the left-to-right scan does with the colon at position \<open>i\<close>: it becomes a space
  when it stands between two word characters and the colon two positions before it, if
  there is one, did not become a space (that match has used up the word character in
  between).
\<close>

fun consumed :: "jsstring \<Rightarrow> nat \<Rightarrow> bool" where
  "consumed l i =
     (if flanked l i then (if 2 \<le> i then \<not> consumed l (i - 2) else True) else False)"

declare consumed.simps [simp del]

text \<open>
  The two tests of the play loop, on the search term as the loop has it (already
  normalized): the title test is containment, the category test is membership among the
  lower-cased genres or among the lower-cased tags.
\<close>

definition title_hit :: "lowercase \<Rightarrow> jsstring \<Rightarrow> TabletopAudioTrack \<Rightarrow> bool" where
  "title_hit lower search track = sublist search (sanitizeTitle lower (track_title track))"

definition category_hit :: "lowercase \<Rightarrow> jsstring \<Rightarrow> TabletopAudioTrack \<Rightarrow> bool" where
  "category_hit lower search track =
     (search \<in> set (map lower (track_genre track)) \<or>
      search \<in> set (map lower (tags track)))"

text \<open>
  What slot \<open>i\<close> of the suggestions holds: the field chosen by \<open>i mod 3\<close> of the track
  drawn by the \<open>i\<close>-th random value.
\<close>

definition slot :: "random \<Rightarrow> TabletopAudioTrack list \<Rightarrow> nat \<Rightarrow> jsstring option" where
  "slot rnd trks i =
     (suggestionGenerators ! (i mod 3)) (trks ! nat (random_index (rnd i) (length trks)))"

text \<open>
  The category test as the specification words it for the play matcher: the lower-cased
  search term, without the colon normalization, is one of the genres or tags (compared
  without regard to case).
\<close>

definition claimed_category_hit :: "lowercase \<Rightarrow> jsstring \<Rightarrow> TabletopAudioTrack \<Rightarrow> bool" where
  "claimed_category_hit lower searchString track =
     (lower searchString \<in> set (map lower (track_genre track)) \<or>
      lower searchString \<in> set (map lower (tags track)))"


definition is_media :: "fragment \<Rightarrow> bool" where
  "is_media f = (case f of MediaObject n u d i a \<Rightarrow> True | _ \<Rightarrow> False)"

text \<open>
  For the concrete instances below: on a string whose code units are all below 256,
  \<^verbatim>\<open>toLowerCase\<close> adds 32 to the code units of \<^verbatim>\<open>A\<close> to \<^verbatim>\<open>Z\<close> and to those of the
  capital letters from 192 to 222 (215, the multiplication sign, is not one) and keeps the
  others. The strings of the instances are of this kind.
\<close>

definition latin1_lower_unit :: "code_unit \<Rightarrow> code_unit" where
  "latin1_lower_unit c =
     (if (65 \<le> c \<and> c \<le> 90) \<or> (192 \<le> c \<and> c \<le> 222 \<and> c \<noteq> 215) then c + 32 else c)"

definition latin1_lower :: lowercase where
  "latin1_lower s = map latin1_lower_unit s"

text \<open>Tracks, conversations and turns of the instances.\<close>

definition tavern :: TabletopAudioTrack where
  "tavern = \<lparr>track_title = js ''Tavern'', track_genre = [js ''Fantasy''],
     tags = [js ''Forest Day'', js ''inn''], link = js ''https://tabletopaudio.com/tavern.mp3'',
     large_image = js ''tavern.jpg'', flavor_text = js ''A busy inn.''\<rparr>"

definition forest_day :: TabletopAudioTrack where
  "forest_day = \<lparr>track_title = js ''Forest: Day'', track_genre = [js ''Ambient''],
     tags = [js ''nature''], link = js ''https://tabletopaudio.com/forest.mp3'',
     large_image = js ''forest.jpg'', flavor_text = js ''Birds.''\<rparr>"

definition forest :: TabletopAudioTrack where
  "forest = \<lparr>track_title = js ''Forest'', track_genre = [js ''Ambient''],
     tags = [js ''nature''], link = js ''https://tabletopaudio.com/forest2.mp3'',
     large_image = js ''forest2.jpg'', flavor_text = js ''Trees.''\<rparr>"

definition starship :: TabletopAudioTrack where
  "starship = \<lparr>track_title = js ''Starship'', track_genre = [js ''sci:fi''],
     tags = [js ''engine''], link = js ''https://tabletopaudio.com/starship.mp3'',
     large_image = js ''starship.jpg'', flavor_text = js ''A low hum.''\<rparr>"

text \<open>
  Two tracks whose titles differ in the case of a letter outside ASCII: \<^verbatim>\<open>E\<close> with an
  acute accent is the code unit 201, the small letter is 233.
\<close>

definition elan_small :: TabletopAudioTrack where
  "elan_small = \<lparr>track_title = 233 # js ''lan'', track_genre = [js ''Ambient''],
     tags = [js ''caf'' @ [233]], link = js ''https://tabletopaudio.com/elan1.mp3'',
     large_image = js ''elan1.jpg'', flavor_text = js ''First.''\<rparr>"

definition elan_capital :: TabletopAudioTrack where
  "elan_capital = \<lparr>track_title = 201 # js ''lan'', track_genre = [js ''Ambient''],
     tags = [js ''music''], link = js ''https://tabletopaudio.com/elan2.mp3'',
     large_image = js ''elan2.jpg'', flavor_text = js ''Second.''\<rparr>"

text \<open>A random source whose every value is one half.\<close>

definition half :: random where
  "half k = 1 / 2"

definition conv0 :: Conv where
  "conv0 = \<lparr>data = \<lparr>json = Some \<lparr>tracks = [tavern, forest_day, forest]\<rparr>,
                      currentTrack = Some tavern\<rparr>,
            responses = []\<rparr>"

text \<open>A conversation whose catalog was fetched and has no tracks.\<close>

definition empty_session :: Conv where
  "empty_session = \<lparr>data = \<lparr>json = Some \<lparr>tracks = []\<rparr>, currentTrack = None\<rparr>,
                     responses = []\<rparr>"

definition session0 :: TabletopAudioSession where
  "session0 = \<lparr>json = None, currentTrack = None\<rparr>"

definition turn1 :: turn_input where
  "turn1 = \<lparr>turn_remote = Inr \<lparr>tracks = [tavern, forest_day, forest]\<rparr>,
             turn_random = half, turn_intent = PlayIntent (js ''forest day'')\<rparr>"

definition turn2 :: turn_input where
  "turn2 = \<lparr>turn_remote = Inr \<lparr>tracks = [starship]\<rparr>,
             turn_random = half, turn_intent = RepeatIntent\<rparr>"

section \<open>The title normalizer\<close>

lemma is_word_colon: "\<not> is_word colon"
  by (simp add: is_word_def colon_def)

lemma consumed_0: "\<not> consumed l 0"
  by (simp add: consumed.simps flanked_def)

lemma consumed_1: "consumed l (Suc 0) = flanked l (Suc 0)"
  by (simp add: consumed.simps[of l "Suc 0"])

lemma consumed_Suc_Suc:
  "consumed l (Suc (Suc i)) = (flanked l (Suc (Suc i)) \<and> \<not> consumed l i)"
  by (simp add: consumed.simps[of l "Suc (Suc i)"])

lemma consumed_short: "length l < 3 \<Longrightarrow> \<not> consumed l i"
  by (auto simp add: consumed.simps[of l i] flanked_def)

lemma consumed_colon: "consumed l i \<Longrightarrow> l ! i = colon"
  by (simp add: consumed.simps[of l i] flanked_def split: if_splits)

text \<open>Where the scan copies one character and moves on, the positions shift by one.\<close>

lemma consumed_skip:
  assumes "\<not> (is_word a \<and> b = colon \<and> is_word c)"
  shows "consumed (a # b # c # rest) (Suc i) = consumed (b # c # rest) i"
proof (induction i rule: less_induct)
  case (less i)
  show ?case
  proof (cases i)
    case 0
    with assms show ?thesis
      by (simp add: consumed_1 consumed_0 flanked_def)
  next
    case (Suc k)
    have fl: "flanked (a # b # c # rest) (Suc i) = flanked (b # c # rest) i"
      using Suc by (simp add: flanked_def)
    show ?thesis
    proof (cases k)
      case 0
      with Suc fl show ?thesis
        by (simp add: consumed_Suc_Suc consumed_1 consumed_0)
    next
      case (Suc m)
      have "consumed (a # b # c # rest) (Suc m) = consumed (b # c # rest) m"
        using less.IH[of m] \<open>i = Suc k\<close> Suc by simp
      with \<open>i = Suc k\<close> Suc fl show ?thesis
        by (simp add: consumed_Suc_Suc)
    qed
  qed
qed

text \<open>Where the scan finds a match, it resumes three positions further on.\<close>

lemma consumed_match:
  assumes "is_word a" "is_word c"
  shows "consumed (a # colon # c # rest) (Suc (Suc (Suc i))) = consumed rest i"
proof (induction i rule: less_induct)
  case (less i)
  have c1: "consumed (a # colon # c # rest) (Suc 0)"
    using assms by (simp add: consumed_1 flanked_def)
  have c2: "\<not> consumed (a # colon # c # rest) (Suc (Suc 0))"
    using assms is_word_colon by (auto simp add: consumed_Suc_Suc flanked_def)
  show ?case
  proof (cases i)
    case 0
    with c1 show ?thesis
      by (simp add: consumed_Suc_Suc consumed_0)
  next
    case (Suc k)
    have fl: "flanked (a # colon # c # rest) (Suc (Suc (Suc i))) = flanked rest i"
      using Suc by (simp add: flanked_def)
    show ?thesis
    proof (cases k)
      case 0
      with Suc fl c2 show ?thesis
        by (simp add: consumed_Suc_Suc consumed_1)
    next
      case (Suc m)
      have "consumed (a # colon # c # rest) (Suc (Suc (Suc m))) = consumed rest m"
        using less.IH[of m] \<open>i = Suc k\<close> Suc by simp
      with \<open>i = Suc k\<close> Suc fl show ?thesis
        by (simp add: consumed_Suc_Suc)
    qed
  qed
qed

lemma length_replace_word_colon_word [simp]:
  "length (replace_word_colon_word l) = length l"
  by (induction l rule: replace_word_colon_word.induct) auto

lemma replace_word_colon_word_nth:
  "i < length l \<Longrightarrow>
   replace_word_colon_word l ! i = (if consumed l i then space else l ! i)"
proof (induction l arbitrary: i rule: replace_word_colon_word.induct)
  case (1 a b c rest)
  show ?case
  proof (cases "is_word a \<and> b = colon \<and> is_word c")
    case True
    then have w: "is_word a" "is_word c" and b: "b = colon" by auto
    have c1: "consumed (a # colon # c # rest) (Suc 0)"
      using w by (simp add: consumed_1 flanked_def)
    have c2: "\<not> consumed (a # colon # c # rest) (Suc (Suc 0))"
      using w is_word_colon by (auto simp add: consumed_Suc_Suc flanked_def)
    consider "i = 0" | "i = Suc 0" | "i = Suc (Suc 0)" | k where "i = Suc (Suc (Suc k))"
      by (metis not0_implies_Suc)
    then show ?thesis
    proof cases
      case 1 with True show ?thesis by (simp add: consumed_0)
    next
      case 2 with True c1 show ?thesis by simp
    next
      case 3 with True c2 show ?thesis by simp
    next
      case 4
      with "1.prems" have "k < length rest" by simp
      with "1.IH"(1)[OF True, of k] 4 True consumed_match[OF w, of rest k]
      show ?thesis by simp
    qed
  next
    case False
    show ?thesis
    proof (cases i)
      case 0 with False show ?thesis by (simp add: consumed_0)
    next
      case (Suc k)
      with "1.prems" have "k < length (b # c # rest)" by simp
      with "1.IH"(2)[OF False, of k] Suc False consumed_skip[OF False, of rest k]
      show ?thesis by auto
    qed
  qed
qed (simp_all add: consumed_short)

lemma replace_word_colon_word_map:
  "replace_word_colon_word l =
     map (\<lambda>i. if consumed l i then space else l ! i) [0..<length l]"
  by (rule nth_equalityI) (simp_all add: replace_word_colon_word_nth)

lemma filter_map_concat:
  "filter P (map f xs) = concat (map (\<lambda>x. if P (f x) then [f x] else []) xs)"
  by (induction xs) auto

lemma space_not_colon: "space \<noteq> colon"
  by (simp add: space_def colon_def)

lemma replace_colon_scan:
  "replace_colon (replace_word_colon_word l) =
     concat (map (\<lambda>i. if l ! i = colon then (if consumed l i then [space] else []) else [l ! i])
               [0..<length l])"
  unfolding replace_colon_def
  apply (subst replace_word_colon_word_map)
  apply (subst filter_map_concat)
  apply (rule arg_cong[where f = concat])
  apply (rule map_cong[OF refl])
  apply (auto dest: consumed_colon simp add: space_not_colon)
  done

lemma sanitizeTitle_no_colon: "colon \<notin> set (sanitizeTitle lower s)"
  by (simp add: sanitizeTitle_def replace_colon_def)

lemma sanitizeTitle_Nil: "lower [] = [] \<Longrightarrow> sanitizeTitle lower [] = []"
  by (simp add: sanitizeTitle_def replace_colon_def)

lemma consumed_flanked: "consumed l i \<Longrightarrow> flanked l i"
  by (simp add: consumed.simps[of l i] split: if_splits)

text \<open>Without overlapping patterns every colon between two word characters is matched.\<close>

lemma consumed_eq_flanked:
  assumes "\<forall>i. flanked l (i + 2) \<longrightarrow> \<not> flanked l i"
  shows "consumed l i = flanked l i"
proof (cases "flanked l i \<and> 2 \<le> i")
  case True
  then have eq: "i - 2 + 2 = i" by arith
  from True have "flanked l (i - 2 + 2)" unfolding eq by blast
  with assms have "\<not> flanked l (i - 2)" by blast
  then have "\<not> consumed l (i - 2)" using consumed_flanked by blast
  with True show ?thesis by (simp add: consumed.simps[of l i])
next
  case False
  then show ?thesis by (auto simp add: consumed.simps[of l i])
qed

text \<open>
  Where no two patterns of the lower-cased input share a word character,
  \<open>sanitizeTitle\<close> returns what the specification describes, for every input and every
  lower-casing.
\<close>

lemma sanitizeTitle_normalize_spec:
  assumes "\<forall>i. flanked (lower s) (i + 2) \<longrightarrow> \<not> flanked (lower s) i"
  shows "sanitizeTitle lower s = normalize_spec lower s"
  unfolding sanitizeTitle_def normalize_spec_def Let_def replace_colon_scan
    consumed_eq_flanked [OF assms] ..

text \<open>
  C7. The specification has every word-character/colon/word-character pattern replaced
  by its two word characters and a space between them. At \<^verbatim>\<open>a:b:c\<close>, which lower-casing
  leaves as it is, both colons stand between two word characters, so the specification
  asks for \<^verbatim>\<open>a b c\<close>; \<open>sanitizeTitle\<close> returns \<^verbatim>\<open>a bc\<close>: the global regular expression
  resumes behind the \<^verbatim>\<open>b\<close> that closed its first match, so the second pattern is not
  matched and its colon is deleted by the second replace.
\<close>

theorem sanitizeTitle_overlap:
  assumes "lower (js ''a:b:c'') = js ''a:b:c''"
  shows "sanitizeTitle lower (js ''a:b:c'') = js ''a bc'' \<and>
         normalize_spec lower (js ''a:b:c'') = js ''a b c'' \<and>
         sanitizeTitle lower (js ''a:b:c'') \<noteq> normalize_spec lower (js ''a:b:c'')"
proof -
  have a: "replace_colon (replace_word_colon_word (js ''a:b:c'')) = js ''a bc''"
    by code_simp
  have b: "(let l = js ''a:b:c''
            in concat (map (\<lambda>i. if l ! i = colon
                                then (if flanked l i then [space] else [])
                                else [l ! i])
                        [0..<length l])) = js ''a b c''"
    by code_simp
  have c: "js ''a bc'' \<noteq> js ''a b c''"
    by code_simp
  from a b c show ?thesis
    unfolding sanitizeTitle_def normalize_spec_def assms by simp
qed

text \<open>The same with the lower-casing of the instances.\<close>

theorem sanitizeTitle_overlap_witness:
  "latin1_lower (js ''a:b:c'') = js ''a:b:c'' \<and>
   sanitizeTitle latin1_lower (js ''a:b:c'') = js ''a bc'' \<and>
   normalize_spec latin1_lower (js ''a:b:c'') = js ''a b c''"
proof -
  have h: "latin1_lower (js ''a:b:c'') = js ''a:b:c''" by code_simp
  from sanitizeTitle_overlap [of latin1_lower, OF h] h show ?thesis by simp
qed

lemma set_replace_word_colon_word:
  "set (replace_word_colon_word l) \<subseteq> insert space (set l)"
  by (induction l rule: replace_word_colon_word.induct) auto

lemma replace_word_colon_word_no_colon:
  "colon \<notin> set l \<Longrightarrow> replace_word_colon_word l = l"
  by (induction l rule: replace_word_colon_word.induct) auto

text \<open>
  Normalizing a normalized string gives it again, provided that lower-casing leaves the
  normalized string as it is.
\<close>

lemma sanitizeTitle_idem:
  assumes "lower (sanitizeTitle lower s) = sanitizeTitle lower s"
  shows "sanitizeTitle lower (sanitizeTitle lower s) = sanitizeTitle lower s"
proof -
  have "sanitizeTitle lower (sanitizeTitle lower s) =
        replace_colon (replace_word_colon_word (sanitizeTitle lower s))"
    by (simp add: sanitizeTitle_def[of lower "sanitizeTitle lower s"] assms)
  also have "\<dots> = replace_colon (sanitizeTitle lower s)"
    by (simp add: replace_word_colon_word_no_colon sanitizeTitle_no_colon)
  also have "\<dots> = sanitizeTitle lower s"
    using sanitizeTitle_no_colon[of lower s] by (auto simp add: replace_colon_def filter_id_conv)
  finally show ?thesis .
qed

text \<open>
  The inputs with an empty normal form are those whose lower-cased form is a string of
  colons.
\<close>

lemma replace_word_colon_word_colons:
  "set l \<subseteq> {colon} \<Longrightarrow> replace_word_colon_word l = l"
  by (induction l rule: replace_word_colon_word.induct) (auto simp: is_word_colon)

lemma replace_word_colon_word_colons_only:
  "set (replace_word_colon_word l) \<subseteq> {colon} \<Longrightarrow> set l \<subseteq> {colon}"
  by (induction l rule: replace_word_colon_word.induct)
     (auto split: if_splits simp add: space_not_colon)

lemma sanitizeTitle_empty_iff: "(sanitizeTitle lower s = []) = (set (lower s) \<subseteq> {colon})"
proof
  assume "sanitizeTitle lower s = []"
  then have "set (replace_word_colon_word (lower s)) \<subseteq> {colon}"
    by (auto simp add: sanitizeTitle_def replace_colon_def filter_empty_conv)
  then show "set (lower s) \<subseteq> {colon}"
    by (rule replace_word_colon_word_colons_only)
next
  assume "set (lower s) \<subseteq> {colon}"
  then show "sanitizeTitle lower s = []"
    by (auto simp add: sanitizeTitle_def replace_colon_def replace_word_colon_word_colons
          filter_empty_conv)
qed

section \<open>The play matcher\<close>

lemma indexOf_from_sublist: "0 \<le> i \<Longrightarrow> (indexOf_from s pat i > - 1) = sublist pat s"
  by (induction s arbitrary: i) (auto simp: sublist_Cons_right)

lemma indexOf_sublist: "(indexOf s pat > - 1) = sublist pat s"
  by (simp add: indexOf_def indexOf_from_sublist)

lemma searchAndPlay_loop_find:
  "searchAndPlay_loop lower search catalog acc =
     (case find (title_hit lower search) catalog of
        Some track \<Rightarrow> Inl track
      | None \<Rightarrow> Inr (acc @ filter (category_hit lower search) catalog))"
  by (induction catalog arbitrary: acc)
     (auto simp add: Let_def indexOf_sublist array_includes_def title_hit_def category_hit_def
           split: option.splits)

lemma matchTracks_find:
  "matchTracks lower catalog s =
     (case find (title_hit lower (sanitizeTitle lower s)) catalog of
        Some track \<Rightarrow> ExactTitle track
      | None \<Rightarrow>
          if filter (category_hit lower (sanitizeTitle lower s)) catalog = [] then NoMatch
          else CategorySet (filter (category_hit lower (sanitizeTitle lower s)) catalog))"
  by (simp add: matchTracks_def searchAndPlay_loop_find split: option.splits)

lemma matchTracks_exact_iff:
  "(matchTracks lower catalog s = ExactTitle track) =
     (find (title_hit lower (sanitizeTitle lower s)) catalog = Some track)"
  by (cases "find (title_hit lower (sanitizeTitle lower s)) catalog") (simp_all add: matchTracks_find)

text \<open>
  C1. For every catalog and search term (and whatever lower-casing does to a string), the
  play matcher returns \<open>ExactTitle track\<close> precisely when the normalized search term is
  contained in the normalized title of some track, and \<open>track\<close> is then the first such
  track in catalog order; nothing else ranks the hits. A title hit anywhere in the catalog
  wins over the category matches collected before it: whatever the loop has accumulated
  (\<open>acc\<close>), it returns early with that track.
\<close>

theorem matchTracks_exact_first:
  "((matchTracks lower catalog searchString = ExactTitle track) =
     (\<exists>i<length catalog. track = catalog ! i \<and>
         title_hit lower (sanitizeTitle lower searchString) (catalog ! i) \<and>
         (\<forall>j<i. \<not> title_hit lower (sanitizeTitle lower searchString) (catalog ! j))))
   \<and> ((\<exists>t. matchTracks lower catalog searchString = ExactTitle t) =
        (\<exists>t\<in>set catalog. title_hit lower (sanitizeTitle lower searchString) t))
   \<and> ((searchAndPlay_loop lower (sanitizeTitle lower searchString) catalog acc = Inl track) =
        (matchTracks lower catalog searchString = ExactTitle track))"
proof (intro conjI)
  show "(matchTracks lower catalog searchString = ExactTitle track) =
     (\<exists>i<length catalog. track = catalog ! i \<and>
         title_hit lower (sanitizeTitle lower searchString) (catalog ! i) \<and>
         (\<forall>j<i. \<not> title_hit lower (sanitizeTitle lower searchString) (catalog ! j)))"
    unfolding matchTracks_exact_iff find_Some_iff by blast
  have "(\<exists>t. find (title_hit lower (sanitizeTitle lower searchString)) catalog = Some t) =
        (\<exists>t\<in>set catalog. title_hit lower (sanitizeTitle lower searchString) t)"
    using find_None_iff [of "title_hit lower (sanitizeTitle lower searchString)" catalog] by auto
  then show "(\<exists>t. matchTracks lower catalog searchString = ExactTitle t) =
        (\<exists>t\<in>set catalog. title_hit lower (sanitizeTitle lower searchString) t)"
    unfolding matchTracks_exact_iff .
  show "(searchAndPlay_loop lower (sanitizeTitle lower searchString) catalog acc = Inl track) =
        (matchTracks lower catalog searchString = ExactTitle track)"
    unfolding matchTracks_exact_iff
    by (cases "find (title_hit lower (sanitizeTitle lower searchString)) catalog")
       (simp_all add: searchAndPlay_loop_find)
qed

text \<open>
  An instance: \<open>tavern\<close> comes first and matches the search term by its tag, and still
  the later title hit is what the matcher returns.
\<close>

theorem matchTracks_exact_first_witness:
  "matchTracks latin1_lower [tavern, forest_day] (js ''forest day'') = ExactTitle forest_day \<and>
   category_hit latin1_lower (sanitizeTitle latin1_lower (js ''forest day'')) tavern \<and>
   (\<exists>i<length [tavern, forest_day]. forest_day = [tavern, forest_day] ! i \<and>
         title_hit latin1_lower (sanitizeTitle latin1_lower (js ''forest day''))
           ([tavern, forest_day] ! i) \<and>
         (\<forall>j<i. \<not> title_hit latin1_lower (sanitizeTitle latin1_lower (js ''forest day''))
                     ([tavern, forest_day] ! j)))"
proof -
  have a: "matchTracks latin1_lower [tavern, forest_day] (js ''forest day'') =
           ExactTitle forest_day"
    by code_simp
  have b: "category_hit latin1_lower (sanitizeTitle latin1_lower (js ''forest day'')) tavern"
    by code_simp
  show ?thesis
    using a b
      matchTracks_exact_first
        [of latin1_lower "[tavern, forest_day]" "js ''forest day''" forest_day "[]"]
    by blast
qed

text \<open>
  C10. For every non-empty catalog, a search term whose normal form is empty makes the
  play matcher return \<open>ExactTitle\<close> of the first track of the catalog: the empty string
  is contained in every title. So on a non-empty catalog no such term reaches the category
  branch or the no-match branch. The terms with an empty normal form are exactly those
  whose lower-cased form is made of colons only; lower-casing turns a string of colons,
  the empty string among them, into itself and no other string into a string of colons,
  and then these terms are exactly the strings made of colons only. (On a catalog without
  tracks the loop does not run and every term ends in \<open>NoMatch\<close>.)
\<close>

theorem matchTracks_empty_normal_form:
  "(sanitizeTitle lower searchString = [] \<longrightarrow>
      matchTracks lower (track # rest) searchString = ExactTitle track) \<and>
   ((sanitizeTitle lower searchString = []) = (set (lower searchString) \<subseteq> {colon})) \<and>
   ((set (lower searchString) \<subseteq> {colon}) = (set searchString \<subseteq> {colon}) \<longrightarrow>
      (sanitizeTitle lower searchString = []) = (set searchString \<subseteq> {colon})) \<and>
   matchTracks lower [] searchString = NoMatch"
proof (intro conjI impI)
  assume "sanitizeTitle lower searchString = []"
  then show "matchTracks lower (track # rest) searchString = ExactTitle track"
    by (simp add: matchTracks_find title_hit_def)
next
  show "(sanitizeTitle lower searchString = []) = (set (lower searchString) \<subseteq> {colon})"
    by (rule sanitizeTitle_empty_iff)
next
  assume "(set (lower searchString) \<subseteq> {colon}) = (set searchString \<subseteq> {colon})"
  then show "(sanitizeTitle lower searchString = []) = (set searchString \<subseteq> {colon})"
    by (simp only: sanitizeTitle_empty_iff)
next
  show "matchTracks lower [] searchString = NoMatch"
    by (simp add: matchTracks_def)
qed

text \<open>The theorem at a string of colons and at the empty string.\<close>

theorem matchTracks_empty_normal_form_witness:
  "sanitizeTitle latin1_lower (js '':::'') = [] \<and>
   set (js '':::'') \<subseteq> {colon} \<and>
   matchTracks latin1_lower [tavern, forest_day] (js '':::'') = ExactTitle tavern \<and>
   sanitizeTitle latin1_lower [] = [] \<and>
   matchTracks latin1_lower [tavern, forest_day] [] = ExactTitle tavern"
proof -
  have a: "(set (latin1_lower (js '':::'')) \<subseteq> {colon}) = (set (js '':::'') \<subseteq> {colon})"
    by (simp add: latin1_lower_def latin1_lower_unit_def js_def colon_def)
  have b: "set (js '':::'') \<subseteq> {colon}"
    by (simp add: js_def colon_def)
  have c: "(set (latin1_lower []) \<subseteq> {colon}) = (set [] \<subseteq> {colon})"
    by (simp add: latin1_lower_def)
  show ?thesis
    using a b c
      matchTracks_empty_normal_form [of latin1_lower "js '':::''" tavern "[forest_day]"]
      matchTracks_empty_normal_form [of latin1_lower "[]" tavern "[forest_day]"]
    by simp
qed

text \<open>
  C4 (as amended). For every catalog and every track \<open>t\<close> in it whose normalized title
  lower-casing leaves as it is, matching the catalog against the normalized title of \<open>t\<close>
  returns \<open>ExactTitle\<close>, never a category set or no match: normalizing the normalized
  title gives it again, and the normalized title of \<open>t\<close> contains it. The track returned
  is the first one in catalog order whose normalized title contains the normalized title
  of \<open>t\<close>; it is \<open>t\<close> itself whenever no track before \<open>t\<close> has such a title.
\<close>

theorem matchTracks_title_roundtrip:
  assumes "t \<in> set catalog"
    and "lower (sanitizeTitle lower (track_title t)) = sanitizeTitle lower (track_title t)"
  shows "title_hit lower (sanitizeTitle lower (track_title t)) t \<and>
     (\<exists>i<length catalog.
        matchTracks lower catalog (sanitizeTitle lower (track_title t)) = ExactTitle (catalog ! i) \<and>
        title_hit lower (sanitizeTitle lower (track_title t)) (catalog ! i) \<and>
        (\<forall>j<i. \<not> title_hit lower (sanitizeTitle lower (track_title t)) (catalog ! j))) \<and>
     (\<forall>pre post. catalog = pre @ t # post \<and>
        (\<forall>u\<in>set pre. \<not> title_hit lower (sanitizeTitle lower (track_title t)) u) \<longrightarrow>
        matchTracks lower catalog (sanitizeTitle lower (track_title t)) = ExactTitle t)"
proof -
  let ?n = "sanitizeTitle lower (track_title t)"
  note idem = sanitizeTitle_idem [OF assms(2)]
  have self: "title_hit lower ?n t"
    by (simp add: title_hit_def)
  with assms(1) obtain u where u: "find (title_hit lower ?n) catalog = Some u"
    by (cases "find (title_hit lower ?n) catalog") (auto simp: find_None_iff)
  then have m: "matchTracks lower catalog ?n = ExactTitle u"
    by (simp add: matchTracks_find idem)
  from u obtain i where i: "i < length catalog" "title_hit lower ?n (catalog ! i)" "u = catalog ! i"
      "\<forall>j<i. \<not> title_hit lower ?n (catalog ! j)"
    by (auto simp: find_Some_iff)
  have "matchTracks lower catalog ?n = ExactTitle t"
    if "catalog = pre @ t # post" "\<forall>u\<in>set pre. \<not> title_hit lower ?n u" for pre post
  proof -
    have "find (title_hit lower ?n) (pre @ t # post) = Some t"
      using that(2) self by (induction pre) auto
    then show ?thesis
      using that(1) by (simp add: matchTracks_find idem)
  qed
  with self m i show ?thesis by blast
qed

theorem matchTracks_title_roundtrip_witness:
  "forest_day \<in> set [tavern, forest_day, forest] \<and>
   sanitizeTitle latin1_lower (track_title forest_day) = js ''forest day'' \<and>
   latin1_lower (js ''forest day'') = js ''forest day'' \<and>
   matchTracks latin1_lower [tavern, forest_day, forest]
     (sanitizeTitle latin1_lower (track_title forest_day)) = ExactTitle forest_day"
proof -
  have a: "forest_day \<in> set [tavern, forest_day, forest]" by simp
  have n: "sanitizeTitle latin1_lower (track_title forest_day) = js ''forest day''"
    by code_simp
  have l: "latin1_lower (js ''forest day'') = js ''forest day''"
    by code_simp
  have h: "latin1_lower (sanitizeTitle latin1_lower (track_title forest_day)) =
           sanitizeTitle latin1_lower (track_title forest_day)"
    unfolding n by (rule l)
  have b: "\<forall>u\<in>set [tavern].
             \<not> title_hit latin1_lower (sanitizeTitle latin1_lower (track_title forest_day)) u"
    by code_simp
  have c: "[tavern, forest_day, forest] = [tavern] @ forest_day # [forest]" by simp
  show ?thesis
    using a b c n l matchTracks_title_roundtrip [OF a h] by blast
qed

text \<open>
  C4 as it is stated fails when an earlier track's title contains the title asked for:
  the title of \<open>forest\<close> is found inside the title of \<open>forest_day\<close>, which comes first
  and is returned.
\<close>

theorem matchTracks_title_roundtrip_counterexample:
  "forest \<in> set [forest_day, forest] \<and>
   matchTracks latin1_lower [forest_day, forest] (sanitizeTitle latin1_lower (track_title forest)) =
     ExactTitle forest_day \<and>
   forest_day \<noteq> forest"
  by code_simp

section \<open>The suggestion generator\<close>

lemma binade_lower:
  "0 < x \<Longrightarrow> 2 powi (binade k x) \<le> x \<or> binade k x = - int k"
proof (induction k arbitrary: x)
  case 0
  then show ?case by simp
next
  case (Suc k)
  show ?case
  proof (cases "2 \<le> x")
    case True
    from Suc.prems have "0 < x / 2" by simp
    from Suc.IH [OF this] show ?thesis
    proof
      assume "2 powi binade k (x / 2) \<le> x / 2"
      then have "2 powi (binade k (x / 2) + 1) \<le> x"
        by (simp add: power_int_add)
      with True show ?thesis by simp
    next
      assume b: "binade k (x / 2) = - int k"
      have "(2::real) powi (1 - int k) \<le> 2 powi 1"
        by (rule power_int_increasing) simp_all
      with True b have "2 powi (binade k (x / 2) + 1) \<le> x" by simp
      with True show ?thesis by simp
    qed
  next
    case False
    show ?thesis
    proof (cases "x < 1")
      case True
      from Suc.prems have "0 < x * 2" by simp
      from Suc.IH [OF this] show ?thesis
      proof
        assume "2 powi binade k (x * 2) \<le> x * 2"
        then have "2 powi (binade k (x * 2) - 1) \<le> x"
          by (simp add: power_int_diff)
        with True False show ?thesis by simp
      next
        assume "binade k (x * 2) = - int k"
        with True False show ?thesis by simp
      qed
    next
      case F2: False
      with False show ?thesis by simp
    qed
  qed
qed

lemma round_half_even_nonneg: "0 \<le> y \<Longrightarrow> 0 \<le> round_half_even y"
  by (auto simp add: round_half_even_def Let_def)

lemma round_half_even_below:
  assumes "y < of_int N - 1 / 2"
  shows "round_half_even y \<le> N - 1"
proof -
  have f: "of_int \<lfloor>y\<rfloor> \<le> y" by simp
  show ?thesis
  proof (cases "y - of_int \<lfloor>y\<rfloor> < 1 / 2")
    case True
    from assms f have "real_of_int \<lfloor>y\<rfloor> < of_int N" by linarith
    then have "\<lfloor>y\<rfloor> < N" by simp
    with True show ?thesis by (simp add: round_half_even_def Let_def)
  next
    case False
    with assms have "real_of_int \<lfloor>y\<rfloor> < of_int N - 1" by linarith
    then have "real_of_int \<lfloor>y\<rfloor> < of_int (N - 1)" by simp
    then have "\<lfloor>y\<rfloor> < N - 1" by (simp only: of_int_less_iff)
    then show ?thesis by (auto simp add: round_half_even_def Let_def)
  qed
qed

lemma round_half_even_int: "round_half_even (of_int m) = m"
  by (simp add: round_half_even_def)

lemma round_half_even_above: "of_int M \<le> y \<Longrightarrow> M \<le> round_half_even y"
proof -
  assume "of_int M \<le> y"
  then have "M \<le> \<lfloor>y\<rfloor>" by (simp add: le_floor_iff)
  then show ?thesis by (auto simp add: round_half_even_def Let_def)
qed

text \<open>
  A positive product below a whole number \<open>c\<close> of at most \<open>2\<^sup>3\<^sup>2\<close> is rounded on a grid
  whose step \<open>ulp\<close> is a negative power of two, so that the whole numbers are on the
  grid, and half a step is less than \<open>c / 2\<^sup>5\<^sup>3\<close>.
\<close>

lemma exponent_facts:
  assumes x: "0 < x" and xc: "x < real c" and c: "c \<le> 2 ^ 32"
  defines "e \<equiv> max (binade 1100 x) (- 1022)"
  shows "2 powi e < real c" and "e < 32"
proof -
  from x xc have c1: "1 \<le> real c" by (cases c) simp_all
  show lt: "2 powi e < real c"
  proof (cases "- 1022 \<le> binade 1100 x")
    case True
    then have "binade 1100 x \<noteq> - int 1100" by simp
    with binade_lower [OF x, of 1100] have "2 powi binade 1100 x \<le> x" by blast
    with True xc show ?thesis by (simp add: e_def max_def)
  next
    case False
    then have e: "e = - 1022" by (simp add: e_def)
    have "(2::real) powi (- 1022) < 2 powi 0"
      by (rule power_int_strict_increasing) simp_all
    with c1 show ?thesis unfolding e by simp
  qed
  show "e < 32"
  proof (rule ccontr)
    assume "\<not> e < 32"
    then have "(2::real) powi 32 \<le> 2 powi e"
      by (intro power_int_increasing) simp_all
    moreover from c have "real c \<le> 2 ^ 32"
      by (metis of_nat_le_iff of_nat_numeral of_nat_power)
    ultimately show False using lt by simp
  qed
qed

lemma ulp_inverse:
  assumes "e < 32"
  shows "1 / (2::real) powi (e - 52) = 2 ^ nat (52 - e)"
proof -
  have "(2::real) powi (e - 52) = 2 powi (- (52 - e))" by simp
  also have "\<dots> = 1 / 2 powi (52 - e)" by (rule power_int_minus_divide)
  also have "\<dots> = 1 / 2 ^ nat (52 - e)"
    using assms by (simp add: power_int_nonneg_exp)
  finally show ?thesis by simp
qed

lemma double_round_grid:
  assumes x: "0 < x" and xc: "x < real c" and c: "c \<le> 2 ^ 32"
  shows "\<exists>ulp s. 0 < ulp \<and> 1 / ulp = 2 ^ s \<and> ulp / 2 < real c / 2 ^ 53 \<and>
           double_round x = ulp * of_int (round_half_even (x / ulp))"
proof -
  define e where "e = max (binade 1100 x) (- 1022)"
  define ulp :: real where "ulp = 2 powi (e - 52)"
  note ef = exponent_facts [OF x xc c, folded e_def]
  have ulp: "0 < ulp" by (simp add: ulp_def)
  have inv: "1 / ulp = 2 ^ nat (52 - e)"
    unfolding ulp_def by (rule ulp_inverse [OF ef(2)])
  have half: "ulp / 2 = 2 powi e / 2 ^ 53"
  proof -
    have "ulp = 2 powi e / 2 powi 52" unfolding ulp_def by (rule power_int_diff) simp
    then show ?thesis by simp
  qed
  have small: "ulp / 2 < real c / 2 ^ 53"
    unfolding half using ef(1) by (simp add: divide_strict_right_mono)
  have dr: "double_round x = ulp * of_int (round_half_even (x / ulp))"
    using x by (simp add: double_round_def e_def ulp_def Let_def)
  from ulp inv small dr show ?thesis by blast
qed

lemma double_round_nonneg: "0 \<le> double_round x"
  by (simp add: double_round_def Let_def round_half_even_nonneg)

text \<open>Rounding does not take a product below a whole number that it has reached.\<close>

lemma double_round_above:
  assumes k: "real k \<le> x" and xc: "x < real c" and c: "c \<le> 2 ^ 32"
  shows "real k \<le> double_round x"
proof (cases "0 < x")
  case False
  with k have "k = 0" by simp
  then show ?thesis by (simp add: double_round_nonneg)
next
  case True
  from double_round_grid [OF True xc c] obtain ulp s
    where ulp: "0 < ulp" and inv: "1 / ulp = 2 ^ s"
      and dr: "double_round x = ulp * of_int (round_half_even (x / ulp))"
    by blast
  define M where "M = int k * 2 ^ s"
  have "real k / ulp = real k * (1 / ulp)" by simp
  then have M: "real_of_int M = real k / ulp" unfolding inv by (simp add: M_def)
  from k ulp have "real k / ulp \<le> x / ulp" by (simp add: divide_right_mono)
  then have "M \<le> round_half_even (x / ulp)"
    unfolding M [symmetric] by (rule round_half_even_above)
  then have "real_of_int M \<le> real_of_int (round_half_even (x / ulp))" by simp
  with ulp have "ulp * real_of_int M \<le> double_round x" unfolding dr by simp
  moreover have "ulp * real_of_int M = real k" using ulp M by simp
  ultimately show ?thesis by simp
qed

text \<open>
  Rounding does not take a product up to a whole number \<open>m\<close> from which it is at least
  \<open>c / 2\<^sup>5\<^sup>3\<close> away.
\<close>

lemma double_round_below:
  assumes x0: "0 \<le> x" and gap: "x \<le> real m - real c / 2 ^ 53"
    and m: "m \<le> c" and c0: "0 < c" and c: "c \<le> 2 ^ 32"
  shows "double_round x < real m"
proof (cases "0 < x")
  case False
  from c0 have "0 < real c / 2 ^ 53" by simp
  with gap x0 have "0 < real m" by linarith
  with False show ?thesis by (simp add: double_round_def)
next
  case True
  from c0 have "0 < real c / 2 ^ 53" by simp
  with gap m have xc: "x < real c"
    by (smt (verit) of_nat_le_iff)
  from double_round_grid [OF True xc c] obtain ulp s
    where ulp: "0 < ulp" and inv: "1 / ulp = 2 ^ s" and small: "ulp / 2 < real c / 2 ^ 53"
      and dr: "double_round x = ulp * of_int (round_half_even (x / ulp))"
    by blast
  define N where "N = int m * 2 ^ s"
  have "real m / ulp = real m * (1 / ulp)" by simp
  then have N: "real_of_int N = real m / ulp" unfolding inv by (simp add: N_def)
  from gap small have "x < real m - ulp / 2" by linarith
  then have "x / ulp < (real m - ulp / 2) / ulp"
    using ulp by (simp add: divide_strict_right_mono)
  also have "\<dots> = real_of_int N - 1 / 2" using ulp N by (simp add: field_simps)
  finally have "round_half_even (x / ulp) \<le> N - 1" by (rule round_half_even_below)
  then have "real_of_int (round_half_even (x / ulp)) \<le> real_of_int N - 1"
    by (metis of_int_1 of_int_diff of_int_le_iff)
  with ulp have "double_round x \<le> ulp * (real_of_int N - 1)" unfolding dr by simp
  also have "\<dots> = real m - ulp" using ulp N by (simp add: field_simps)
  also have "\<dots> < real m" using ulp by simp
  finally show ?thesis .
qed

text \<open>
  \<^verbatim>\<open>Math.floor(Math.random() * n)\<close> is an index of an array of length \<open>n\<close>, and position
  \<open>k\<close> is drawn by every value from \<open>k / n\<close> to \<open>(k + 1) / n - 2\<^sup>-\<^sup>5\<^sup>3\<close>: the values that
  draw a given position contain an interval of length \<open>1 / n - 2\<^sup>-\<^sup>5\<^sup>3\<close>, the same for
  every position.
\<close>

lemma random_index_interval:
  assumes n: "n < 2 ^ 32" and k: "k < n"
    and lo: "real k / real n \<le> r" and hi: "r \<le> real (Suc k) / real n - 1 / 2 ^ 53"
  shows "random_index r n = int k"
proof -
  from k have n0: "0 < real n" by simp
  from lo n0 have a: "real k \<le> r * real n" by (simp add: pos_divide_le_eq)
  from hi n0 have "r * real n \<le> (real (Suc k) / real n - 1 / 2 ^ 53) * real n"
    by (simp only: mult_le_cancel_right_pos)
  also have "\<dots> = real (Suc k) - real n / 2 ^ 53" using n0 by (simp add: field_simps)
  finally have b: "r * real n \<le> real (Suc k) - real n / 2 ^ 53" .
  from k have m: "Suc k \<le> n" by simp
  from k have c0: "0 < n" by simp
  from n have c: "n \<le> 2 ^ 32" by simp
  from a have x0: "0 \<le> r * real n" by (smt (verit) of_nat_0_le_iff)
  have up: "double_round (r * real n) < real (Suc k)"
    by (rule double_round_below [OF x0 b m c0 c])
  from b n0 have "r * real n < real (Suc k)"
    by (smt (verit) divide_pos_pos zero_less_numeral zero_less_power)
  with m have "r * real n < real n" by (smt (verit) of_nat_le_iff)
  from double_round_above [OF a this c] up show ?thesis
    by (simp add: random_index_def floor_eq_iff)
qed

lemma random_index_range:
  assumes r: "unit_double r" and n: "0 < n" "n < 2 ^ 32"
  shows "0 \<le> random_index r n \<and> random_index r n < int n"
proof -
  from r n(1) have "r * real n \<le> (1 - 1 / 2 ^ 53) * real n"
    by (simp add: unit_double_def)
  also have "\<dots> = real n - real n / 2 ^ 53" by (simp add: field_simps)
  finally have gap: "r * real n \<le> real n - real n / 2 ^ 53" .
  from n(2) have c: "n \<le> 2 ^ 32" by simp
  from r have x0: "0 \<le> r * real n" by (simp add: unit_double_def)
  have "double_round (r * real n) < real n"
    by (rule double_round_below [OF x0 gap le_refl n(1) c])
  with double_round_nonneg [of "r * real n"] show ?thesis
    by (simp add: random_index_def floor_less_iff)
qed

lemma random_index_0: "random_index 0 n = 0"
  by (simp add: random_index_def double_round_def)

text \<open>
  For the double \<open>2573485501354569 / 2\<^sup>5\<^sup>2\<close> (printed \<^verbatim>\<open>0.5714285714285714\<close>) and seven
  tracks the exact product is below \<open>4\<close> and the double product is \<open>4\<close>.
\<close>

lemma random_index_rounds_up:
  "\<lfloor>2573485501354569 / 2 ^ 52 * (7::real)\<rfloor> = 3 \<and>
   random_index (2573485501354569 / 2 ^ 52) 7 = 4"
  by code_simp

lemma elem_random_index:
  assumes "unit_double r" "xs \<noteq> []" "length xs < 2 ^ 32"
  shows "nat (random_index r (length xs)) < length xs \<and>
         elem xs (random_index r (length xs)) = Some (xs ! nat (random_index r (length xs)))"
  using random_index_range [OF assms(1) _ assms(3)] assms(2)
  by (auto simp add: elem_def)

lemma getSuggestions_loop_ok:
  assumes "trks \<noteq> []" "length trks < 2 ^ 32" "\<forall>k<6. unit_double (rnd k)"
  shows "getSuggestions_loop rnd trks i acc = Inr (acc @ map (slot rnd trks) [i..<6])"
  using assms
proof (induction rnd trks i acc rule: getSuggestions_loop.induct)
  case (1 rnd trks i suggestions)
  show ?case
  proof (cases "i < 6")
    case True
    with "1.prems" have u: "unit_double (rnd i)" by simp
    note e = elem_random_index [OF u "1.prems"(1,2)]
    have "getSuggestions_loop rnd trks (i + 1) (suggestions @ [slot rnd trks i]) =
          Inr ((suggestions @ [slot rnd trks i]) @ map (slot rnd trks) [i + 1..<6])"
      using "1.IH" [OF True conjunct2 [OF e] "1.prems"] by (simp add: slot_def)
    with True e show ?thesis
      by (subst getSuggestions_loop.simps) (simp add: slot_def upt_conv_Cons)
  next
    case False
    then show ?thesis
      by (subst getSuggestions_loop.simps) simp
  qed
qed

lemma getSuggestions_ok:
  assumes "trks \<noteq> []" "length trks < 2 ^ 32" "\<forall>k<6. unit_double (rnd k)"
  shows "getSuggestions rnd trks = Inr (map (slot rnd trks) [0..<6])"
  by (simp add: getSuggestions_def getSuggestions_loop_ok [OF assms])


text \<open>
  C5. For every non-empty catalog whose tracks all have a genre and a tag (an array has
  fewer than \<open>2\<^sup>3\<^sup>2\<close> elements, and \<^verbatim>\<open>Math.random()\<close> gives doubles of at least \<open>0\<close> and
  below \<open>1\<close>), \<open>getSuggestions\<close> returns exactly six entries; entry \<open>i\<close> is taken from
  the track drawn by the \<open>i\<close>-th random value alone, the one at the floor of the double
  product of that value and the number of tracks (so the slots are drawn independently and
  a track may come up more than once), and is its title when \<open>i mod 3 = 0\<close>, its first
  genre when \<open>i mod 3 = 1\<close> and its first tag when \<open>i mod 3 = 2\<close>.
\<close>

theorem getSuggestions_six:
  assumes "catalog \<noteq> []"
    and "length catalog < 2 ^ 32"
    and "\<forall>t\<in>set catalog. track_genre t \<noteq> [] \<and> tags t \<noteq> []"
    and "\<forall>k<6. unit_double (rnd k)"
  shows "\<exists>suggestions. getSuggestions rnd catalog = Inr suggestions \<and> length suggestions = 6 \<and>
     (\<forall>i<6. \<exists>t\<in>set catalog.
        t = catalog ! nat (random_index (rnd i) (length catalog)) \<and>
        suggestions ! i =
          (if i mod 3 = 0 then Some (track_title t)
           else if i mod 3 = 1 then Some (hd (track_genre t))
           else Some (hd (tags t))))"
proof (intro exI conjI allI impI)
  show "getSuggestions rnd catalog = Inr (map (slot rnd catalog) [0..<6])"
    by (rule getSuggestions_ok [OF assms(1,2,4)])
  show "length (map (slot rnd catalog) [0..<6]) = 6" by simp
  fix i :: nat assume i: "i < 6"
  let ?t = "catalog ! nat (random_index (rnd i) (length catalog))"
  from i assms(4) have "unit_double (rnd i)" by simp
  from elem_random_index [OF this assms(1,2)] have mem: "?t \<in> set catalog" by simp
  with assms(3) have ne: "track_genre ?t \<noteq> []" "tags ?t \<noteq> []" by auto
  have m: "i mod 3 = 0 \<or> i mod 3 = 1 \<or> i mod 3 = 2" by arith
  have "map (slot rnd catalog) [0..<6] ! i = slot rnd catalog i"
    using i by (simp del: upt_Suc)
  also have "\<dots> = (if i mod 3 = 0 then Some (track_title ?t)
           else if i mod 3 = 1 then Some (hd (track_genre ?t))
           else Some (hd (tags ?t)))"
    using m ne
    by (auto simp add: slot_def suggestionGenerators_def getSuggestionTrackTitle_def
          getSuggestionTrackGenre_def getSuggestionTag_def elem_def hd_conv_nth)
  finally show "\<exists>t\<in>set catalog.
        t = ?t \<and>
        map (slot rnd catalog) [0..<6] ! i =
          (if i mod 3 = 0 then Some (track_title t)
           else if i mod 3 = 1 then Some (hd (track_genre t))
           else Some (hd (tags t)))"
    using mem by blast
qed

text \<open>
  An instance in which the first three slots draw \<open>tavern\<close> and the last three
  \<open>forest_day\<close>.
\<close>

theorem getSuggestions_six_witness:
  "(\<exists>suggestions.
      getSuggestions (\<lambda>k. real k / 6) [tavern, forest_day] = Inr suggestions \<and>
      length suggestions = 6) \<and>
   getSuggestions (\<lambda>k. real k / 6) [tavern, forest_day] =
     Inr [Some (js ''Tavern''), Some (js ''Fantasy''), Some (js ''Forest Day''),
          Some (js ''Forest: Day''), Some (js ''Ambient''), Some (js ''nature'')]"
proof -
  have a: "[tavern, forest_day] \<noteq> []" by simp
  have l: "length [tavern, forest_day] < 2 ^ 32" by simp
  have b: "\<forall>t\<in>set [tavern, forest_day]. track_genre t \<noteq> [] \<and> tags t \<noteq> []"
    by (simp add: tavern_def forest_day_def)
  have c: "\<forall>k<6. unit_double (real k / 6)"
    by (simp add: unit_double_def)
  have d: "getSuggestions (\<lambda>k. real k / 6) [tavern, forest_day] =
     Inr [Some (js ''Tavern''), Some (js ''Fantasy''), Some (js ''Forest Day''),
          Some (js ''Forest: Day''), Some (js ''Ambient''), Some (js ''nature'')]"
    by code_simp
  from getSuggestions_six [OF a l b c] d show ?thesis by blast
qed

section \<open>The play handler\<close>

lemma searchAndPlay_loop_Nil: "searchAndPlay_loop lower search [] acc = Inr acc"
  by simp

lemma matchTracks_ExactTitle:
  "(matchTracks lower catalog s = ExactTitle t) =
     (searchAndPlay_loop lower (sanitizeTitle lower s) catalog [] = Inl t)"
  by (simp add: matchTracks_def split: sum.splits)

lemma matchTracks_CategorySet:
  "(matchTracks lower catalog s = CategorySet ts) =
     (searchAndPlay_loop lower (sanitizeTitle lower s) catalog [] = Inr ts \<and> ts \<noteq> [])"
  by (auto simp add: matchTracks_def split: sum.splits)

lemma matchTracks_NoMatch:
  "(matchTracks lower catalog s = NoMatch) =
     (searchAndPlay_loop lower (sanitizeTitle lower s) catalog [] = Inr [])"
  by (auto simp add: matchTracks_def split: sum.splits)

lemma searchAndPlay_exact:
  assumes "json (data conv) = Some j"
    and "searchAndPlay_loop lower (sanitizeTitle lower s) (tracks j) [] = Inl t"
    and "getSuggestions rnd (tracks j) = Inr sg"
  shows "fst (searchAndPlay lower rnd conv s) = None \<and>
         data (snd (searchAndPlay lower rnd conv s)) = (data conv)\<lparr>currentTrack := Some t\<rparr> \<and>
         responses (snd (searchAndPlay lower rnd conv s)) =
           responses conv @
             [Text (js ''Here is '' @ track_title t @ js ''.''), generateMediaResponse t,
              Suggestions sg]"
  using assms by (simp add: searchAndPlay_def ask_def Let_def)

lemma searchAndPlay_category:
  assumes "json (data conv) = Some j"
    and "searchAndPlay_loop lower (sanitizeTitle lower s) (tracks j) [] = Inr ts" and "ts \<noteq> []"
    and "elem ts (random_index (rnd 0) (length ts)) = Some t"
    and "getSuggestions (\<lambda>k. rnd (Suc k)) (tracks j) = Inr sg"
  shows "fst (searchAndPlay lower rnd conv s) = None \<and>
         data (snd (searchAndPlay lower rnd conv s)) = (data conv)\<lparr>currentTrack := Some t\<rparr> \<and>
         responses (snd (searchAndPlay lower rnd conv s)) =
           responses conv @
             [Text (js ''I found several tracks for the category '' @ sanitizeTitle lower s @
                    js ''. Here is one at random: '' @ track_title t @ js ''.''),
              generateMediaResponse t, Suggestions sg]"
  using assms by (simp add: searchAndPlay_def ask_def Let_def)

lemma searchAndPlay_nomatch:
  assumes "json (data conv) = Some j"
    and "searchAndPlay_loop lower (sanitizeTitle lower s) (tracks j) [] = Inr []"
  shows "data (snd (searchAndPlay lower rnd conv s)) = data conv"
  using assms
  by (simp add: searchAndPlay_def ask_def Let_def split: sum.splits option.splits)

lemma searchAndPlay_unpopulated:
  "json (data conv) = None \<Longrightarrow> searchAndPlay lower rnd conv s = (Some TypeError, conv)"
  by (simp add: searchAndPlay_def)

lemma loop_nonempty_catalog:
  "searchAndPlay_loop lower search catalog [] \<noteq> Inr [] \<Longrightarrow> catalog \<noteq> []"
  by (cases catalog) simp_all

lemma searchAndPlay_loop_length:
  assumes "searchAndPlay_loop lower search catalog [] = Inr ts"
  shows "length ts \<le> length catalog"
proof -
  from assms have "ts = filter (category_hit lower search) catalog"
    by (simp add: searchAndPlay_loop_find split: option.splits)
  then show ?thesis by simp
qed

text \<open>
  C3. For every session state and every search term: when the term matches no track (no
  title contains it, no genre or tag equals it), the play handler leaves the session
  data, and so \<open>currentTrack\<close>, as it was, whether it returns or its suggestion
  generator throws (and so it does on a session without a catalog, where it throws at
  once); when the match is an exact title, the handler returns normally, the matched
  track is the new \<open>currentTrack\<close> and its media object is enqueued; when the match is a
  category set, the same holds for the member of the set that was drawn. The two
  successful cases take a catalog of fewer than \<open>2\<^sup>3\<^sup>2\<close> tracks, as every array has, and
  \<^verbatim>\<open>Math.random()\<close> values that are doubles of at least \<open>0\<close> and below \<open>1\<close>; the draw is
  the floor of the double product. (\<open>Play\<close> and \<open>PlayEntity\<close> run \<open>searchAndPlay\<close>.)
\<close>

theorem searchAndPlay_currentTrack:
  "(json (data conv) = None \<longrightarrow> searchAndPlay lower rnd conv s = (Some TypeError, conv)) \<and>
   (json (data conv) = Some j \<longrightarrow>
      (matchTracks lower (tracks j) s = NoMatch \<longrightarrow>
         data (snd (searchAndPlay lower rnd conv s)) = data conv) \<and>
      (length (tracks j) < 2 ^ 32 \<and> (\<forall>k<7. unit_double (rnd k)) \<longrightarrow>
         (\<forall>t. matchTracks lower (tracks j) s = ExactTitle t \<longrightarrow>
            fst (searchAndPlay lower rnd conv s) = None \<and>
            currentTrack (data (snd (searchAndPlay lower rnd conv s))) = Some t \<and>
            generateMediaResponse t \<in> set (responses (snd (searchAndPlay lower rnd conv s)))) \<and>
         (\<forall>ts. matchTracks lower (tracks j) s = CategorySet ts \<longrightarrow>
            (\<exists>t\<in>set ts.
               t = ts ! nat (random_index (rnd 0) (length ts)) \<and>
               fst (searchAndPlay lower rnd conv s) = None \<and>
               currentTrack (data (snd (searchAndPlay lower rnd conv s))) = Some t \<and>
               generateMediaResponse t \<in>
                 set (responses (snd (searchAndPlay lower rnd conv s)))))))"
proof -
  have unpopulated: "searchAndPlay lower rnd conv s = (Some TypeError, conv)"
    if "json (data conv) = None"
    using that by (rule searchAndPlay_unpopulated)
  have nomatch: "data (snd (searchAndPlay lower rnd conv s)) = data conv"
    if j: "json (data conv) = Some j" and "matchTracks lower (tracks j) s = NoMatch"
    using that(2) searchAndPlay_nomatch [OF j] by (simp add: matchTracks_NoMatch)
  have exact: "fst (searchAndPlay lower rnd conv s) = None \<and>
        currentTrack (data (snd (searchAndPlay lower rnd conv s))) = Some t \<and>
        generateMediaResponse t \<in> set (responses (snd (searchAndPlay lower rnd conv s)))"
    if j: "json (data conv) = Some j" and len: "length (tracks j) < 2 ^ 32"
      and u: "\<forall>k<7. unit_double (rnd k)"
      and m: "matchTracks lower (tracks j) s = ExactTitle t" for t
  proof -
    from m have l: "searchAndPlay_loop lower (sanitizeTitle lower s) (tracks j) [] = Inl t"
      by (simp add: matchTracks_ExactTitle)
    then have ne: "tracks j \<noteq> []"
      using loop_nonempty_catalog [of lower "sanitizeTitle lower s" "tracks j"] by simp
    from u have "\<forall>k<6. unit_double (rnd k)" by simp
    from getSuggestions_ok [OF ne len this] searchAndPlay_exact [OF j l]
    show ?thesis by simp
  qed
  have category: "\<exists>t\<in>set ts.
          t = ts ! nat (random_index (rnd 0) (length ts)) \<and>
          fst (searchAndPlay lower rnd conv s) = None \<and>
          currentTrack (data (snd (searchAndPlay lower rnd conv s))) = Some t \<and>
          generateMediaResponse t \<in> set (responses (snd (searchAndPlay lower rnd conv s)))"
    if j: "json (data conv) = Some j" and len: "length (tracks j) < 2 ^ 32"
      and u: "\<forall>k<7. unit_double (rnd k)"
      and m: "matchTracks lower (tracks j) s = CategorySet ts" for ts
  proof -
    from m have l: "searchAndPlay_loop lower (sanitizeTitle lower s) (tracks j) [] = Inr ts"
      and ts: "ts \<noteq> []"
      by (simp_all add: matchTracks_CategorySet)
    then have ne: "tracks j \<noteq> []"
      using loop_nonempty_catalog [of lower "sanitizeTitle lower s" "tracks j"] by simp
    from searchAndPlay_loop_length [OF l] len have tl: "length ts < 2 ^ 32" by simp
    from u have u0: "unit_double (rnd 0)" and u6: "\<forall>k<6. unit_double (rnd (Suc k))"
      by simp_all
    let ?t = "ts ! nat (random_index (rnd 0) (length ts))"
    note e = elem_random_index [OF u0 ts tl]
    then have mem: "?t \<in> set ts" by simp
    from searchAndPlay_category [OF j l ts conjunct2 [OF e] getSuggestions_ok [OF ne len u6]] mem
    show ?thesis
      by (intro bexI [of _ ?t]) simp_all
  qed
  from unpopulated nomatch exact category show ?thesis by blast
qed

text \<open>
  Instances on a session that is playing \<open>tavern\<close>: a term without a match, a title
  match and a category match.
\<close>

theorem searchAndPlay_currentTrack_witness:
  "json (data conv0) = Some \<lparr>tracks = [tavern, forest_day, forest]\<rparr> \<and>
   currentTrack (data conv0) = Some tavern \<and>
   matchTracks latin1_lower [tavern, forest_day, forest] (js ''zzz-nonexistent'') = NoMatch \<and>
   currentTrack (data (snd (searchAndPlay latin1_lower half conv0 (js ''zzz-nonexistent'')))) =
     Some tavern \<and>
   matchTracks latin1_lower [tavern, forest_day, forest] (js ''forest day'') =
     ExactTitle forest_day \<and>
   currentTrack (data (snd (searchAndPlay latin1_lower half conv0 (js ''forest day'')))) =
     Some forest_day \<and>
   matchTracks latin1_lower [tavern, forest_day, forest] (js ''Nature'') =
     CategorySet [forest_day, forest] \<and>
   (\<exists>t\<in>set [forest_day, forest].
      currentTrack (data (snd (searchAndPlay latin1_lower half conv0 (js ''Nature'')))) = Some t) \<and>
   currentTrack (data (snd (searchAndPlay latin1_lower half conv0 (js ''Nature'')))) = Some forest"
proof -
  let ?j = "\<lparr>tracks = [tavern, forest_day, forest]\<rparr>"
  have j: "json (data conv0) = Some ?j"
    by (simp add: conv0_def)
  have t: "tracks ?j = [tavern, forest_day, forest]"
    by simp
  have len: "length (tracks ?j) < 2 ^ 32" by simp
  have u: "\<forall>k<7. unit_double (half k)" by (simp add: unit_double_def half_def)
  have a: "matchTracks latin1_lower [tavern, forest_day, forest] (js ''zzz-nonexistent'') = NoMatch"
    by code_simp
  have b: "matchTracks latin1_lower [tavern, forest_day, forest] (js ''forest day'') =
           ExactTitle forest_day"
    by code_simp
  have c: "matchTracks latin1_lower [tavern, forest_day, forest] (js ''Nature'') =
           CategorySet [forest_day, forest]"
    by code_simp
  have d: "currentTrack (data (snd (searchAndPlay latin1_lower half conv0 (js ''Nature'')))) =
           Some forest"
    by code_simp
  have e: "currentTrack (data conv0) = Some tavern" by (simp add: conv0_def)
  from searchAndPlay_currentTrack [of conv0 latin1_lower half "js ''zzz-nonexistent''" ?j] j a e
  have x1: "currentTrack (data (snd (searchAndPlay latin1_lower half conv0
              (js ''zzz-nonexistent'')))) = Some tavern"
    unfolding t by simp
  from searchAndPlay_currentTrack [of conv0 latin1_lower half "js ''forest day''" ?j] j b u len
  have x2: "currentTrack (data (snd (searchAndPlay latin1_lower half conv0 (js ''forest day'')))) =
            Some forest_day"
    unfolding t by blast
  from searchAndPlay_currentTrack [of conv0 latin1_lower half "js ''Nature''" ?j] j c u len
  have x3: "\<exists>t\<in>set [forest_day, forest].
      currentTrack (data (snd (searchAndPlay latin1_lower half conv0 (js ''Nature'')))) = Some t"
    unfolding t by blast
  from j e a b c d x1 x2 x3 show ?thesis by blast
qed

text \<open>
  C2 (as amended). For every catalog and search term with no title hit, the play matcher
  returns \<open>CategorySet\<close> of exactly the tracks, in catalog order, for which the
  colon-normalized search term equals (as a whole string) the lower-cased form of one of
  the genres or one of the tags, when there is such a track, and \<open>NoMatch\<close> when there
  is none. The play handler then selects one member of the set at random and plays it:
  the member at the floor of the double product of \<^verbatim>\<open>Math.random()\<close> and the size \<open>n\<close>
  of the set. Every member is drawn by all the values of an interval of length
  \<open>1 / n - 2\<^sup>-\<^sup>5\<^sup>3\<close>, the same for each, so the draw is uniform as far as
  \<^verbatim>\<open>Math.random()\<close> is.
\<close>

theorem matchTracks_category:
  assumes "\<forall>t\<in>set catalog. \<not> title_hit lower (sanitizeTitle lower s) t"
  shows "matchTracks lower catalog s =
           (if filter (category_hit lower (sanitizeTitle lower s)) catalog = [] then NoMatch
            else CategorySet (filter (category_hit lower (sanitizeTitle lower s)) catalog)) \<and>
         (json (data conv) = Some j \<and> tracks j = catalog \<and> length catalog < 2 ^ 32 \<and>
          filter (category_hit lower (sanitizeTitle lower s)) catalog \<noteq> [] \<and>
          (\<forall>k<7. unit_double (rnd k)) \<longrightarrow>
            (let ts = filter (category_hit lower (sanitizeTitle lower s)) catalog;
                 t = ts ! nat (random_index (rnd 0) (length ts))
             in t \<in> set ts \<and>
                fst (searchAndPlay lower rnd conv s) = None \<and>
                responses (snd (searchAndPlay lower rnd conv s)) =
                  responses conv @
                    [Text (js ''I found several tracks for the category '' @
                           sanitizeTitle lower s @
                           js ''. Here is one at random: '' @ track_title t @ js ''.''),
                     generateMediaResponse t,
                     Suggestions (map (slot (\<lambda>k. rnd (Suc k)) catalog) [0..<6])])) \<and>
         (length catalog < 2 ^ 32 \<longrightarrow>
            (\<forall>k<length (filter (category_hit lower (sanitizeTitle lower s)) catalog). \<forall>r.
               real k / real (length (filter (category_hit lower (sanitizeTitle lower s)) catalog))
                 \<le> r \<and>
               r \<le> real (Suc k) /
                     real (length (filter (category_hit lower (sanitizeTitle lower s)) catalog)) -
                   1 / 2 ^ 53 \<longrightarrow>
               random_index r
                 (length (filter (category_hit lower (sanitizeTitle lower s)) catalog)) = int k))"
proof -
  let ?ts = "filter (category_hit lower (sanitizeTitle lower s)) catalog"
  from assms have f: "find (title_hit lower (sanitizeTitle lower s)) catalog = None"
    by (simp add: find_None_iff)
  then have m: "matchTracks lower catalog s = (if ?ts = [] then NoMatch else CategorySet ?ts)"
    by (simp add: matchTracks_find)
  have tl: "length ?ts < 2 ^ 32" if "length catalog < 2 ^ 32"
    by (rule le_less_trans [OF length_filter_le that])
  have h: "(let ts = ?ts; t = ts ! nat (random_index (rnd 0) (length ts))
             in t \<in> set ts \<and>
                fst (searchAndPlay lower rnd conv s) = None \<and>
                responses (snd (searchAndPlay lower rnd conv s)) =
                  responses conv @
                    [Text (js ''I found several tracks for the category '' @
                           sanitizeTitle lower s @
                           js ''. Here is one at random: '' @ track_title t @ js ''.''),
                     generateMediaResponse t,
                     Suggestions (map (slot (\<lambda>k. rnd (Suc k)) catalog) [0..<6])])"
    if j: "json (data conv) = Some j" and c: "tracks j = catalog"
      and len: "length catalog < 2 ^ 32" and ts: "?ts \<noteq> []"
      and u: "\<forall>k<7. unit_double (rnd k)"
  proof -
    from f c have l: "searchAndPlay_loop lower (sanitizeTitle lower s) (tracks j) [] = Inr ?ts"
      by (simp add: searchAndPlay_loop_find)
    from ts have ne: "tracks j \<noteq> []" using c by auto
    from len c have len': "length (tracks j) < 2 ^ 32" by simp
    from u have u0: "unit_double (rnd 0)" and u6: "\<forall>k<6. unit_double (rnd (Suc k))"
      by simp_all
    note e = elem_random_index [OF u0 ts tl [OF len]]
    from e have mem: "?ts ! nat (random_index (rnd 0) (length ?ts)) \<in> set ?ts"
      by (simp only: nth_mem)
    note r = searchAndPlay_category [OF j l ts conjunct2 [OF e] getSuggestions_ok [OF ne len' u6]]
    from r have r1: "fst (searchAndPlay lower rnd conv s) = None" by (rule conjunct1)
    from r have r3: "responses (snd (searchAndPlay lower rnd conv s)) =
           responses conv @
             [Text (js ''I found several tracks for the category '' @ sanitizeTitle lower s @
                    js ''. Here is one at random: '' @
                    track_title (?ts ! nat (random_index (rnd 0) (length ?ts))) @ js ''.''),
              generateMediaResponse (?ts ! nat (random_index (rnd 0) (length ?ts))),
              Suggestions (map (slot (\<lambda>k. rnd (Suc k)) catalog) [0..<6])]"
      unfolding c by (rule conjunct2 [THEN conjunct2])
    show ?thesis
      unfolding Let_def using mem r1 r3 by (intro conjI)
  qed
  have iv: "random_index r (length ?ts) = int k"
    if "length catalog < 2 ^ 32" "k < length ?ts"
      "real k / real (length ?ts) \<le> r \<and> r \<le> real (Suc k) / real (length ?ts) - 1 / 2 ^ 53"
    for k r
    using random_index_interval [OF tl [OF that(1)] that(2)] that(3) by blast
  from m h iv show ?thesis by blast
qed

text \<open>
  An instance: two tracks carry the tag, the random value one half draws the second.
\<close>

theorem matchTracks_category_witness:
  "filter (category_hit latin1_lower (sanitizeTitle latin1_lower (js ''Nature'')))
     [tavern, forest_day, forest] = [forest_day, forest] \<and>
   matchTracks latin1_lower [tavern, forest_day, forest] (js ''Nature'') =
     CategorySet [forest_day, forest] \<and>
   random_index (half 0) (length [forest_day, forest]) = 1 \<and>
   fst (searchAndPlay latin1_lower half conv0 (js ''Nature'')) = None \<and>
   responses (snd (searchAndPlay latin1_lower half conv0 (js ''Nature''))) =
     [Text (js ''I found several tracks for the category nature. Here is one at random: Forest.''),
      generateMediaResponse forest,
      Suggestions [Some (js ''Forest: Day''), Some (js ''Ambient''), Some (js ''nature''),
                   Some (js ''Forest: Day''), Some (js ''Ambient''), Some (js ''nature'')]] \<and>
   matchTracks latin1_lower [tavern, forest_day, forest] (js ''nat'') = NoMatch"
proof -
  let ?C = "[tavern, forest_day, forest]"
  have a: "\<forall>t\<in>set ?C. \<not> title_hit latin1_lower (sanitizeTitle latin1_lower (js ''Nature'')) t"
    by code_simp
  have a': "\<forall>t\<in>set ?C. \<not> title_hit latin1_lower (sanitizeTitle latin1_lower (js ''nat'')) t"
    by code_simp
  have j: "json (data conv0) = Some \<lparr>tracks = ?C\<rparr>"
    by (simp add: conv0_def)
  have t: "tracks \<lparr>tracks = ?C\<rparr> = ?C" by simp
  have len: "length ?C < 2 ^ 32" by simp
  have u: "\<forall>k<7. unit_double (half k)" by (simp add: unit_double_def half_def)
  have b: "filter (category_hit latin1_lower (sanitizeTitle latin1_lower (js ''Nature''))) ?C =
           [forest_day, forest]"
    by code_simp
  have b': "filter (category_hit latin1_lower (sanitizeTitle latin1_lower (js ''nat''))) ?C = []"
    by code_simp
  note th = matchTracks_category [OF a, of conv0 "\<lparr>tracks = ?C\<rparr>" half]
  from th len
  have iv: "\<forall>k<length [forest_day, forest]. \<forall>r.
      real k / real (length [forest_day, forest]) \<le> r \<and>
      r \<le> real (Suc k) / real (length [forest_day, forest]) - 1 / 2 ^ 53 \<longrightarrow>
      random_index r (length [forest_day, forest]) = int k"
    unfolding b by (rule conjunct2 [THEN conjunct2, THEN mp])
  have hh: "real 1 / real (length [forest_day, forest]) \<le> half 0 \<and>
        half 0 \<le> real (Suc 1) / real (length [forest_day, forest]) - 1 / 2 ^ 53"
    by (simp add: half_def)
  have "(1::nat) < length [forest_day, forest]" by simp
  from iv [rule_format, OF this hh]
  have r: "random_index (half 0) (length [forest_day, forest]) = 1" by simp
  have n: "sanitizeTitle latin1_lower (js ''Nature'') = js ''nature''" by code_simp
  have sg: "map (slot (\<lambda>k. half (Suc k)) ?C) [0..<6] =
     [Some (js ''Forest: Day''), Some (js ''Ambient''), Some (js ''nature''),
      Some (js ''Forest: Day''), Some (js ''Ambient''), Some (js ''nature'')]"
    by code_simp
  have tt: "track_title forest = js ''Forest''" by (simp add: forest_def)
  have cat: "js ''I found several tracks for the category '' @ js ''nature'' @
             js ''. Here is one at random: '' @ js ''Forest'' @ js ''.'' =
             js ''I found several tracks for the category nature. Here is one at random: Forest.''"
    by (simp add: js_def)
  from th b
  have x1: "matchTracks latin1_lower ?C (js ''Nature'') = CategorySet [forest_day, forest]"
    by simp
  from th j t u b len
  have x2: "fst (searchAndPlay latin1_lower half conv0 (js ''Nature'')) = None \<and>
     responses (snd (searchAndPlay latin1_lower half conv0 (js ''Nature''))) =
       responses conv0 @
         [Text (js ''I found several tracks for the category '' @
                sanitizeTitle latin1_lower (js ''Nature'') @
                js ''. Here is one at random: '' @
                track_title ([forest_day, forest] !
                  nat (random_index (half 0) (length [forest_day, forest]))) @ js ''.''),
          generateMediaResponse ([forest_day, forest] !
            nat (random_index (half 0) (length [forest_day, forest]))),
          Suggestions (map (slot (\<lambda>k. half (Suc k)) ?C) [0..<6])]"
    by (simp add: Let_def)
  have x3: "fst (searchAndPlay latin1_lower half conv0 (js ''Nature'')) = None \<and>
   responses (snd (searchAndPlay latin1_lower half conv0 (js ''Nature''))) =
     [Text (js ''I found several tracks for the category nature. Here is one at random: Forest.''),
      generateMediaResponse forest,
      Suggestions [Some (js ''Forest: Day''), Some (js ''Ambient''), Some (js ''nature''),
                   Some (js ''Forest: Day''), Some (js ''Ambient''), Some (js ''nature'')]]"
    using x2 unfolding r n sg by (simp add: tt cat conv0_def)
  from matchTracks_category [OF a'] b'
  have x4: "matchTracks latin1_lower ?C (js ''nat'') = NoMatch"
    by simp
  from b x1 r x3 x4 show ?thesis by blast
qed

text \<open>
  C2 as it is stated fails for a search term with a colon: the lower-cased term
  \<^verbatim>\<open>sci:fi\<close> equals the genre of \<open>starship\<close>, and no title contains it, but the loop
  compares the normalized term \<^verbatim>\<open>sci fi\<close> with the genre and finds no match.
\<close>

theorem matchTracks_category_counterexample:
  "\<not> title_hit latin1_lower (sanitizeTitle latin1_lower (js ''sci:fi'')) starship \<and>
   filter (claimed_category_hit latin1_lower (js ''sci:fi'')) [starship] = [starship] \<and>
   matchTracks latin1_lower [starship] (js ''sci:fi'') = NoMatch"
  by code_simp

section \<open>The search handler\<close>





section \<open>The repeat handler\<close>

text \<open>
  C9 (as amended). For every session state whose catalog has at least one track (and
  fewer than \<open>2\<^sup>3\<^sup>2\<close>, as every array has), and \<^verbatim>\<open>Math.random()\<close> values that are
  doubles of at least \<open>0\<close> and below \<open>1\<close>: with no \<open>currentTrack\<close>, the repeat handler
  returns normally with the fallback message and a suggestion list and enqueues no media
  object; with a \<open>currentTrack\<close>, it enqueues the media object of exactly that track.
\<close>

theorem Repeat_fallback:
  assumes "json (data conv) = Some j" and "tracks j \<noteq> []" and "length (tracks j) < 2 ^ 32"
    and "\<forall>k<6. unit_double (rnd k)"
  shows "(currentTrack (data conv) = None \<longrightarrow>
            Repeat rnd conv =
              (None,
               ask (ask conv (Text
                  (js ''Sorry, I do not know what track you want to play. '' @
                   js ''What else do you want to listen to?'')))
                 (Suggestions (map (slot rnd (tracks j)) [0..<6]))) \<and>
            filter is_media (responses (snd (Repeat rnd conv))) =
              filter is_media (responses conv)) \<and>
         (\<forall>t. currentTrack (data conv) = Some t \<longrightarrow>
            Repeat rnd conv =
              (None,
               ask (ask (ask conv (Text (js ''Once again, here's '' @ track_title t)))
                      (generateMediaResponse t))
                 (Suggestions (map (slot rnd (tracks j)) [0..<6]))) \<and>
            filter is_media (responses (snd (Repeat rnd conv))) =
              filter is_media (responses conv) @ [generateMediaResponse t])"
  using assms(1) getSuggestions_ok [OF assms(2,3,4)]
  by (simp add: Repeat_def ask_suggestions_def ask_def Let_def is_media_def
        generateMediaResponse_def)

theorem Repeat_fallback_witness:
  "json (data conv0) = Some \<lparr>tracks = [tavern, forest_day, forest]\<rparr> \<and>
   currentTrack (data conv0) = Some tavern \<and>
   filter is_media (responses (snd (Repeat half conv0))) = [generateMediaResponse tavern] \<and>
   currentTrack (data (conv0\<lparr>data := (data conv0)\<lparr>currentTrack := None\<rparr>\<rparr>)) = None \<and>
   fst (Repeat half (conv0\<lparr>data := (data conv0)\<lparr>currentTrack := None\<rparr>\<rparr>)) = None \<and>
   filter is_media
     (responses (snd (Repeat half (conv0\<lparr>data := (data conv0)\<lparr>currentTrack := None\<rparr>\<rparr>)))) = []"
proof -
  let ?C = "[tavern, forest_day, forest]"
  let ?c = "conv0\<lparr>data := (data conv0)\<lparr>currentTrack := None\<rparr>\<rparr>"
  have j: "json (data conv0) = Some \<lparr>tracks = ?C\<rparr>" by (simp add: conv0_def)
  have j': "json (data ?c) = Some \<lparr>tracks = ?C\<rparr>" by (simp add: conv0_def)
  have ne: "tracks \<lparr>tracks = ?C\<rparr> \<noteq> []" by simp
  have len: "length (tracks \<lparr>tracks = ?C\<rparr>) < 2 ^ 32" by simp
  have u: "\<forall>k<6. unit_double (half k)" by (simp add: unit_double_def half_def)
  have c: "currentTrack (data conv0) = Some tavern" by (simp add: conv0_def)
  have c': "currentTrack (data ?c) = None" by simp
  have r: "responses conv0 = []" "responses ?c = []" by (simp_all add: conv0_def)
  from Repeat_fallback [OF j ne len u] c
  have x1a: "filter is_media (responses (snd (Repeat half conv0))) =
            filter is_media (responses conv0) @ [generateMediaResponse tavern]"
    by blast
  have x1: "filter is_media (responses (snd (Repeat half conv0))) = [generateMediaResponse tavern]"
    unfolding x1a r by simp
  from Repeat_fallback [OF j' ne len u] c'
  have x2a: "Repeat half ?c =
              (None,
               ask (ask ?c (Text
                  (js ''Sorry, I do not know what track you want to play. '' @
                   js ''What else do you want to listen to?'')))
                 (Suggestions (map (slot half (tracks \<lparr>tracks = ?C\<rparr>)) [0..<6])))"
    and x2b: "filter is_media (responses (snd (Repeat half ?c))) = filter is_media (responses ?c)"
    by blast+
  have x2: "fst (Repeat half ?c) = None \<and> filter is_media (responses (snd (Repeat half ?c))) = []"
    unfolding x2b r unfolding x2a by simp
  from j c c' x1 x2 show ?thesis by blast
qed

text \<open>
  C9 as it is stated fails on a session whose catalog has no tracks: the suggestion
  generator reads \<^verbatim>\<open>tracks[0]\<close>, which is undefined, and the handler throws.
\<close>

theorem Repeat_fallback_counterexample:
  "json (data empty_session) = Some \<lparr>tracks = []\<rparr> \<and>
   currentTrack (data empty_session) = None \<and>
   fst (Repeat half empty_session) = Some TypeError"
  by code_simp

section \<open>The catalog cache\<close>

lemma data_ask [simp]: "data (ask conv f) = data conv"
  by (simp add: ask_def)

lemma ask_suggestions_json [simp]:
  "json (data (snd (ask_suggestions rnd conv))) = json (data conv)"
  by (simp add: ask_suggestions_def split: option.splits sum.splits)

lemma searchAndPlay_json [simp]:
  "json (data (snd (searchAndPlay lower rnd conv s))) = json (data conv)"
  by (simp add: searchAndPlay_def Let_def split: option.splits sum.splits)

lemma Search_json [simp]:
  "json (data (snd (Search lower rnd conv s))) = json (data conv)"
  by (simp add: Search_def Let_def split: option.splits sum.splits)

lemma handle_json:
  "json (data (snd (handle lower rnd intent conv))) = json (data conv)"
  by (cases intent)
     (simp_all add: Welcome_def WelcomeEntities_def Play_def PlayEntity_def Repeat_def
        Current_def New_def Help_def MediaStatus_def Let_def
        split: option.splits)

lemma cacheResults_populated:
  "json (data conv) = Some j \<Longrightarrow> cacheResults remote conv = ([], None, conv)"
  by (simp add: cacheResults_def)

lemma turn_populated:
  assumes "json session = Some j"
  shows "fst (turn lower inp session) = [] \<and> json (data (snd (snd (turn lower inp session)))) = Some j"
  using assms by (simp add: turn_def cacheResults_def handle_json)

lemma run_populated:
  "json session = Some j \<Longrightarrow>
   fst (run lower inps session) = [] \<and> json (snd (run lower inps session)) = Some j"
proof (induction inps arbitrary: session)
  case Nil
  then show ?case by simp
next
  case (Cons inp inps)
  from turn_populated [OF Cons.prems, of lower inp]
  obtain err conv where t: "turn lower inp session = ([], err, conv)" and j: "json (data conv) = Some j"
    by (cases "turn lower inp session") auto
  from Cons.IH [OF j] t show ?case
    by (simp split: prod.splits)
qed

lemma turn_unpopulated:
  assumes "json session = None"
  shows "(fst (turn lower inp session) = [FetchFailed] \<and>
          json (data (snd (snd (turn lower inp session)))) = None) \<or>
         (fst (turn lower inp session) = [Fetched] \<and>
          json (data (snd (snd (turn lower inp session)))) \<noteq> None)"
  using assms by (cases "turn_remote inp") (simp_all add: turn_def cacheResults_def handle_json)

lemma run_fetch_once:
  "length (filter (\<lambda>e. e = Fetched) (fst (run lower inps session))) \<le> 1"
proof (induction inps arbitrary: session)
  case Nil
  then show ?case by simp
next
  case (Cons inp inps)
  obtain evs err conv where t: "turn lower inp session = (evs, err, conv)"
    by (cases "turn lower inp session") auto
  obtain evs' session' where r: "run lower inps (data conv) = (evs', session')"
    by (cases "run lower inps (data conv)") auto
  show ?case
  proof (cases "json session")
    case (Some j)
    from run_populated [OF Some, of lower "inp # inps"] show ?thesis by simp
  next
    case None
    from turn_unpopulated [OF None, of lower inp] t
    consider "evs = [FetchFailed]" | "evs = [Fetched]" "json (data conv) \<noteq> None"
      by auto
    then show ?thesis
    proof cases
      case 1
      with Cons.IH [of "data conv"] t r show ?thesis by simp
    next
      case 2
      then obtain j where "json (data conv) = Some j" by auto
      from run_populated [OF this, of lower inps] r 2 t show ?thesis by simp
    qed
  qed
qed

lemma run_fetch_shape:
  "\<exists>n. fst (run lower inps session) = replicate n FetchFailed \<or>
       fst (run lower inps session) = replicate n FetchFailed @ [Fetched]"
proof (induction inps arbitrary: session)
  case Nil
  have "fst (run lower [] session) = replicate 0 FetchFailed" by simp
  then show ?case by blast
next
  case (Cons inp inps)
  obtain evs err conv where t: "turn lower inp session = (evs, err, conv)"
    by (cases "turn lower inp session") auto
  obtain evs' session' where r: "run lower inps (data conv) = (evs', session')"
    by (cases "run lower inps (data conv)") auto
  show ?case
  proof (cases "json session")
    case (Some j)
    from run_populated [OF Some, of lower "inp # inps"]
    have "fst (run lower (inp # inps) session) = replicate 0 FetchFailed" by simp
    then show ?thesis by blast
  next
    case None
    from turn_unpopulated [OF None, of lower inp] t
    consider "evs = [FetchFailed]" | "evs = [Fetched]" "json (data conv) \<noteq> None"
      by auto
    then show ?thesis
    proof cases
      case 1
      from Cons.IH [of "data conv"] r obtain n where
        "evs' = replicate n FetchFailed \<or> evs' = replicate n FetchFailed @ [Fetched]"
        by auto
      with 1 t r have "fst (run lower (inp # inps) session) = replicate (Suc n) FetchFailed \<or>
          fst (run lower (inp # inps) session) = replicate (Suc n) FetchFailed @ [Fetched]"
        by auto
      then show ?thesis by blast
    next
      case 2
      then obtain j where "json (data conv) = Some j" by auto
      from run_populated [OF this, of lower inps] r 2 t
      have "fst (run lower (inp # inps) session) = replicate 0 FetchFailed @ [Fetched]" by simp
      then show ?thesis by blast
    qed
  qed
qed

text \<open>
  C8. For every session state whose catalog is populated, \<open>cacheResults\<close> makes no
  fetch and leaves the conversation, and so the stored catalog, as it is. No handler
  writes the catalog. Hence in every sequence of turns that starts from a populated
  session no fetch is made and the catalog stays the same; and in every sequence of turns
  at most one fetch returns a catalog: the fetches of a session are failed ones, followed
  by at most one that succeeds, and none after it.
\<close>

theorem catalog_fetched_once:
  "(json (data conv) = Some j \<longrightarrow> cacheResults remote conv = ([], None, conv)) \<and>
   json (data (snd (handle lower rnd intent conv))) = json (data conv) \<and>
   (json session = Some j \<longrightarrow>
      fst (run lower inps session) = [] \<and> json (snd (run lower inps session)) = Some j) \<and>
   length (filter (\<lambda>e. e = Fetched) (fst (run lower inps session))) \<le> 1 \<and>
   (\<exists>n. fst (run lower inps session) = replicate n FetchFailed \<or>
        fst (run lower inps session) = replicate n FetchFailed @ [Fetched])"
  using cacheResults_populated [of conv j remote] handle_json [of lower rnd intent conv]
    run_populated [of session j lower inps] run_fetch_once [of lower inps session]
    run_fetch_shape [of lower inps session]
  by blast

text \<open>
  Instances: on a populated conversation nothing is fetched, although the remote site
  would now answer with another catalog; a session that starts empty fetches in its first
  turn and keeps that catalog in the second.
\<close>

theorem catalog_fetched_once_witness:
  "json (data conv0) = Some \<lparr>tracks = [tavern, forest_day, forest]\<rparr> \<and>
   cacheResults (Inr \<lparr>tracks = [starship]\<rparr>) conv0 = ([], None, conv0) \<and>
   fst (run latin1_lower [turn2, turn2] (data conv0)) = [] \<and>
   json (snd (run latin1_lower [turn2, turn2] (data conv0))) = Some \<lparr>tracks = [tavern, forest_day, forest]\<rparr> \<and>
   fst (run latin1_lower [turn1, turn2] session0) = [Fetched] \<and>
   json (snd (run latin1_lower [turn1, turn2] session0)) = Some \<lparr>tracks = [tavern, forest_day, forest]\<rparr> \<and>
   length (filter (\<lambda>e. e = Fetched) (fst (run latin1_lower [turn1, turn2] session0))) \<le> 1"
proof -
  have j: "json (data conv0) = Some \<lparr>tracks = [tavern, forest_day, forest]\<rparr>"
    by (simp add: conv0_def)
  have a: "fst (run latin1_lower [turn1, turn2] session0) = [Fetched]" by code_simp
  have b: "json (snd (run latin1_lower [turn1, turn2] session0)) = Some \<lparr>tracks = [tavern, forest_day, forest]\<rparr>"
    by code_simp
  note th = catalog_fetched_once [of conv0 "\<lparr>tracks = [tavern, forest_day, forest]\<rparr>"
      "Inr \<lparr>tracks = [starship]\<rparr>" latin1_lower half RepeatIntent "data conv0" "[turn2, turn2]"]
  note th' = catalog_fetched_once [of conv0 "\<lparr>tracks = [tavern, forest_day, forest]\<rparr>"
      "Inr \<lparr>tracks = [starship]\<rparr>" latin1_lower half RepeatIntent session0 "[turn1, turn2]"]
  from th j have x1: "cacheResults (Inr \<lparr>tracks = [starship]\<rparr>) conv0 = ([], None, conv0)"
    by blast
  from th j have x2: "fst (run latin1_lower [turn2, turn2] (data conv0)) = [] \<and>
     json (snd (run latin1_lower [turn2, turn2] (data conv0))) = Some \<lparr>tracks = [tavern, forest_day, forest]\<rparr>"
    by blast
  from th' have x3: "length (filter (\<lambda>e. e = Fetched) (fst (run latin1_lower [turn1, turn2] session0))) \<le> 1"
    by blast
  from j a b x1 x2 x3 show ?thesis by blast
qed

section \<open>Instances with letters outside ASCII\<close>

text \<open>
  The normalizer, the play matcher and the search loop at terms and titles that differ
  in the case of \<^verbatim>\<open>E\<close> with an acute accent: the term in capitals finds the title in
  small letters, the first of two titles that differ only in case is the one returned,
  also for the normalized title of the second, and the tag is matched whatever its case.
\<close>

lemma latin1_instances:
  "sanitizeTitle latin1_lower (js ''CAF'' @ [201]) = js ''caf'' @ [233] \<and>
   matchTracks latin1_lower [tavern, elan_small] (201 # js ''LAN'') = ExactTitle elan_small \<and>
   matchTracks latin1_lower [elan_small, elan_capital]
     (sanitizeTitle latin1_lower (track_title elan_capital)) = ExactTitle elan_small \<and>
   matchTracks latin1_lower [elan_capital, elan_small] (js ''CAF'' @ [201]) =
     CategorySet [elan_small] \<and>
   currentTrack (data (snd (searchAndPlay latin1_lower half
     \<lparr>data = \<lparr>json = Some \<lparr>tracks = [tavern, elan_small]\<rparr>, currentTrack = None\<rparr>,
      responses = []\<rparr> (201 # js ''LAN'')))) = Some elan_small \<and>
   Search_loop latin1_lower (latin1_lower (201 # js ''LAN'')) [tavern, elan_small, elan_capital] [] =
     [233 # js ''lan'', 201 # js ''lan'']"
  by code_simp

end
